theory Spec2Isabelle
  imports Complex_Main "HOL-Library.Word"
begin

unbundle bit_operations_syntax

section \<open>Python values shared by the clients\<close>

text \<open>
  Exceptions are values: every function that can raise returns \<open>exn + 'a\<close>, with
  \<open>Inl\<close> the exception.
\<close>

datatype exn =
    ValueError | OverflowError | StructError | IndexError | AttributeError
  | UnicodeEncodeError | UnicodeDecodeError

definition ebind :: "exn + 'a \<Rightarrow> ('a \<Rightarrow> exn + 'b) \<Rightarrow> exn + 'b" where
  "ebind m f = (case m of Inl e \<Rightarrow> Inl e | Inr x \<Rightarrow> f x)"

type_synonym byte = "8 word"

text \<open>The four big-endian bytes of the two's complement of an integer.\<close>

definition be32 :: "int \<Rightarrow> byte list" where
  "be32 n =
     (let u = n mod 2 ^ 32
      in [word_of_int (u div 2 ^ 24), word_of_int (u div 2 ^ 16),
          word_of_int (u div 2 ^ 8), word_of_int u])"

text \<open>\<open>n.to_bytes(4, "big", signed=True)\<close> raises OverflowError outside the 32-bit range.\<close>

definition to_bytes4 :: "int \<Rightarrow> exn + byte list" where
  "to_bytes4 n = (if - (2 ^ 31) \<le> n \<and> n < 2 ^ 31 then Inr (be32 n) else Inl OverflowError)"

text \<open>\<open>struct.pack('>i', n)\<close> and \<open>struct.pack('>I', n)\<close> raise struct.error out of range.\<close>

definition pack_i :: "int \<Rightarrow> exn + byte list" where
  "pack_i n = (if - (2 ^ 31) \<le> n \<and> n < 2 ^ 31 then Inr (be32 n) else Inl StructError)"

definition pack_I :: "int \<Rightarrow> exn + byte list" where
  "pack_I n = (if 0 \<le> n \<and> n < 2 ^ 32 then Inr (be32 n) else Inl StructError)"

text \<open>
  \<open>int.from_bytes(bs, "big", signed=True)\<close> for a byte string of any length (a slice
  near the end of a message is shorter than four bytes; the empty string gives 0).
\<close>

definition be_unsigned :: "byte list \<Rightarrow> int" where
  "be_unsigned bs = foldl (\<lambda>a b. a * 256 + uint b) 0 bs"

definition from_bytes_signed :: "byte list \<Rightarrow> int" where
  "from_bytes_signed bs =
     (let u = be_unsigned bs; n = length bs
      in if 0 < n \<and> 2 ^ (8 * n - 1) \<le> u then u - 2 ^ (8 * n) else u)"

text \<open>
  Python slicing \<open>xs[i:j]\<close>: a negative bound counts from the end, and both bounds are
  clamped to the length, so a slice never raises.
\<close>

definition slice_bound :: "nat \<Rightarrow> int \<Rightarrow> nat" where
  "slice_bound len k = (if k < 0 then nat (max 0 (k + int len)) else min (nat k) len)"

definition py_slice :: "'a list \<Rightarrow> int \<Rightarrow> int \<Rightarrow> 'a list" where
  "py_slice xs i j =
     (let lo = slice_bound (length xs) i; hi = slice_bound (length xs) j
      in take (hi - lo) (drop lo xs))"

text \<open>Python indexing \<open>xs[i]\<close> with a non-negative constant index.\<close>

definition py_index :: "'a list \<Rightarrow> nat \<Rightarrow> exn + 'a" where
  "py_index xs i = (if i < length xs then Inr (xs ! i) else Inl IndexError)"

subsection \<open>Strings and UTF-8\<close>

text \<open>
  A Python \<open>str\<close> is a sequence of code points.  \<open>str.encode(s)\<close> and
  \<open>bs.decode('utf-8')\<close> are the strict UTF-8 codec of the Python library: surrogates
  cannot be encoded, and the decoder rejects stray continuation bytes, truncated
  sequences, overlong forms, surrogates and values above U+10FFFF.
\<close>

type_synonym pystr = "nat list"

definition encode_cp :: "nat \<Rightarrow> exn + byte list" where
  "encode_cp c =
     (if c < 0x80 then Inr [of_nat c]
      else if c < 0x800 then Inr [of_nat (0xC0 + c div 64), of_nat (0x80 + c mod 64)]
      else if c < 0x10000 then
        (if 0xD800 \<le> c \<and> c \<le> 0xDFFF then Inl UnicodeEncodeError
         else Inr [of_nat (0xE0 + c div 4096), of_nat (0x80 + c div 64 mod 64),
                   of_nat (0x80 + c mod 64)])
      else if c < 0x110000 then
        Inr [of_nat (0xF0 + c div 262144), of_nat (0x80 + c div 4096 mod 64),
             of_nat (0x80 + c div 64 mod 64), of_nat (0x80 + c mod 64)]
      else Inl UnicodeEncodeError)"

fun str_encode :: "pystr \<Rightarrow> exn + byte list" where
  "str_encode [] = Inr []"
| "str_encode (c # cs) =
     ebind (encode_cp c) (\<lambda>bs. ebind (str_encode cs) (\<lambda>rest. Inr (bs @ rest)))"

definition is_cont :: "byte \<Rightarrow> bool" where
  "is_cont b = (0x80 \<le> unat b \<and> unat b < 0xC0)"

definition cont_bits :: "byte \<Rightarrow> nat" where
  "cont_bits b = unat b - 0x80"

fun utf8_decode :: "byte list \<Rightarrow> exn + pystr" where
  "utf8_decode [] = Inr []"
| "utf8_decode (b0 # bs) =
     (let n0 = unat b0
      in if n0 < 0x80 then ebind (utf8_decode bs) (\<lambda>cs. Inr (n0 # cs))
         else if 0xC2 \<le> n0 \<and> n0 < 0xE0 then
           (case bs of
              b1 # r \<Rightarrow>
                if is_cont b1
                then ebind (utf8_decode r) (\<lambda>cs. Inr (((n0 - 0xC0) * 64 + cont_bits b1) # cs))
                else Inl UnicodeDecodeError
            | _ \<Rightarrow> Inl UnicodeDecodeError)
         else if 0xE0 \<le> n0 \<and> n0 < 0xF0 then
           (case bs of
              b1 # b2 # r \<Rightarrow>
                (let c = (n0 - 0xE0) * 4096 + cont_bits b1 * 64 + cont_bits b2
                 in if is_cont b1 \<and> is_cont b2 \<and> 0x800 \<le> c \<and> \<not> (0xD800 \<le> c \<and> c \<le> 0xDFFF)
                    then ebind (utf8_decode r) (\<lambda>cs. Inr (c # cs))
                    else Inl UnicodeDecodeError)
            | _ \<Rightarrow> Inl UnicodeDecodeError)
         else if 0xF0 \<le> n0 \<and> n0 < 0xF5 then
           (case bs of
              b1 # b2 # b3 # r \<Rightarrow>
                (let c = (n0 - 0xF0) * 262144 + cont_bits b1 * 4096 + cont_bits b2 * 64
                         + cont_bits b3
                 in if is_cont b1 \<and> is_cont b2 \<and> is_cont b3 \<and> 0x10000 \<le> c \<and> c < 0x110000
                    then ebind (utf8_decode r) (\<lambda>cs. Inr (c # cs))
                    else Inl UnicodeDecodeError)
            | _ \<Rightarrow> Inl UnicodeDecodeError)
         else Inl UnicodeDecodeError)"

section \<open>Frame header (tts\_client.py and stt\_client.py)\<close>

text \<open>
  Both clients declare the same \<open>Header\<close> class.  Its fields are Python integers;
  \<open>as_bytes\<close> packs them into four bytes, and \<open>bytes([...])\<close> raises ValueError for
  an element outside 0..255.
\<close>

record header =
  protocol_version :: int
  header_size :: int
  message_type :: int
  message_type_specific_flags :: int
  serial_method :: int
  compression_type :: int
  reserved_data :: int

definition PROTOCOL_VERSION :: int where "PROTOCOL_VERSION = 1"
definition DEFAULT_HEADER_SIZE :: int where "DEFAULT_HEADER_SIZE = 1"
definition NO_SERIALIZATION :: int where "NO_SERIALIZATION = 0"
definition JSON :: int where "JSON = 1"
definition COMPRESSION_NO :: int where "COMPRESSION_NO = 0"
definition COMPRESSION_GZIP :: int where "COMPRESSION_GZIP = 1"

text \<open>\<open>Header(message_type=..., message_type_specific_flags=..., ...)\<close> with the defaults.\<close>

definition Header :: "int \<Rightarrow> int \<Rightarrow> int \<Rightarrow> int \<Rightarrow> header" where
  "Header mt fl sm ct =
     \<lparr>protocol_version = PROTOCOL_VERSION, header_size = DEFAULT_HEADER_SIZE,
      message_type = mt, message_type_specific_flags = fl,
      serial_method = sm, compression_type = ct, reserved_data = 0\<rparr>"

definition to_byte :: "int \<Rightarrow> exn + byte" where
  "to_byte v = (if 0 \<le> v \<and> v < 256 then Inr (word_of_int v) else Inl ValueError)"

definition header_as_bytes :: "header \<Rightarrow> exn + byte list" where
  "header_as_bytes h =
     ebind (to_byte (push_bit 4 (protocol_version h) OR header_size h)) (\<lambda>b0.
     ebind (to_byte (push_bit 4 (message_type h) OR message_type_specific_flags h)) (\<lambda>b1.
     ebind (to_byte (push_bit 4 (serial_method h) OR compression_type h)) (\<lambda>b2.
     ebind (to_byte (reserved_data h)) (\<lambda>b3. Inr [b0, b1, b2, b3]))))"

section \<open>TTS wire codec (tts\_client.py)\<close>

definition FULL_CLIENT_REQUEST :: int where "FULL_CLIENT_REQUEST = 1"
definition AUDIO_ONLY_RESPONSE :: int where "AUDIO_ONLY_RESPONSE = 11"
definition FULL_SERVER_RESPONSE :: int where "FULL_SERVER_RESPONSE = 9"
definition ERROR_INFORMATION :: int where "ERROR_INFORMATION = 15"

definition MsgTypeFlagWithEvent :: int where "MsgTypeFlagWithEvent = 4"

definition EVENT_NONE :: int where "EVENT_NONE = 0"
definition EVENT_Start_Connection :: int where "EVENT_Start_Connection = 1"
definition EVENT_FinishConnection :: int where "EVENT_FinishConnection = 2"
definition EVENT_ConnectionStarted :: int where "EVENT_ConnectionStarted = 50"
definition EVENT_ConnectionFailed :: int where "EVENT_ConnectionFailed = 51"
definition EVENT_StartSession :: int where "EVENT_StartSession = 100"
definition EVENT_FinishSession :: int where "EVENT_FinishSession = 102"
definition EVENT_SessionStarted :: int where "EVENT_SessionStarted = 150"
definition EVENT_SessionFinished :: int where "EVENT_SessionFinished = 152"
definition EVENT_SessionFailed :: int where "EVENT_SessionFailed = 153"
definition EVENT_TaskRequest :: int where "EVENT_TaskRequest = 200"

text \<open>The \<open>Optional\<close> class; \<open>Optional ev sid sq\<close> is its constructor.\<close>

record optional =
  event :: int
  sessionId :: "pystr option"
  errorCode :: int
  connectionId :: "pystr option"
  response_meta_json :: "pystr option"
  sequence :: "int option"

definition Optional :: "int \<Rightarrow> pystr option \<Rightarrow> int option \<Rightarrow> optional" where
  "Optional ev sid sq =
     \<lparr>event = ev, sessionId = sid, errorCode = 0, connectionId = None,
      response_meta_json = None, sequence = sq\<rparr>"

text \<open>\<open>Optional.as_bytes\<close>: each field is written when it is set, in this order.\<close>

definition optional_as_bytes :: "optional \<Rightarrow> exn + byte list" where
  "optional_as_bytes opt =
     ebind (if event opt \<noteq> EVENT_NONE then to_bytes4 (event opt) else Inr []) (\<lambda>eb.
     ebind (case sessionId opt of
              None \<Rightarrow> Inr []
            | Some s \<Rightarrow>
                ebind (str_encode s) (\<lambda>session_id_bytes.
                ebind (to_bytes4 (int (length session_id_bytes))) (\<lambda>size.
                Inr (size @ session_id_bytes)))) (\<lambda>sb.
     ebind (case sequence opt of None \<Rightarrow> Inr [] | Some q \<Rightarrow> to_bytes4 q) (\<lambda>qb.
     Inr (eb @ sb @ qb))))"

text \<open>
  \<open>_send_event_with_protocol(header, optional, payload)\<close>: the result is the byte
  string handed to \<open>websocket.send\<close>.
\<close>

definition send_event_with_protocol ::
  "byte list \<Rightarrow> byte list option \<Rightarrow> byte list option \<Rightarrow> exn + byte list" where
  "send_event_with_protocol hdr opt pl =
     (let r1 = hdr @ (case opt of None \<Rightarrow> [] | Some ob \<Rightarrow> ob)
      in case pl of
           None \<Rightarrow> Inr r1
         | Some p \<Rightarrow>
             ebind (to_bytes4 (int (length p))) (\<lambda>payload_size. Inr (r1 @ payload_size @ p)))"

text \<open>
  The frame a \<open>_send_*\<close> method puts on the wire: it builds the header bytes and the
  optional bytes and passes them on with the payload.
\<close>

definition encode_frame :: "header \<Rightarrow> optional \<Rightarrow> byte list \<Rightarrow> exn + byte list" where
  "encode_frame h opt pl =
     ebind (header_as_bytes h) (\<lambda>hb.
     ebind (optional_as_bytes opt) (\<lambda>ob.
     send_event_with_protocol hb (Some ob) (Some pl)))"

text \<open>\<open>_send_start_connection\<close>: event 1, no session id, payload \<open>{}\<close>.\<close>

definition send_start_connection :: "exn + byte list" where
  "send_start_connection =
     encode_frame (Header FULL_CLIENT_REQUEST MsgTypeFlagWithEvent NO_SERIALIZATION COMPRESSION_NO)
       (Optional EVENT_Start_Connection None None) [0x7B, 0x7D]"

text \<open>
  A parsed \<open>Response\<close>.  \<open>_parse_response\<close> starts from \<open>Header()\<close> and
  \<open>Optional()\<close>, overwrites four header fields and stores the serialisation method, the
  compression and the reserved byte under attribute names of their own, which the
  constructor does not know; they are the three extra fields here.
\<close>

record response =
  header :: header
  serialization_method :: int
  message_compression :: int
  reserved :: int
  optional :: optional
  payload :: "byte list option"

definition read_res_content :: "byte list \<Rightarrow> int \<Rightarrow> exn + pystr \<times> int" where
  "read_res_content res offset =
     (let content_size = from_bytes_signed (py_slice res offset (offset + 4));
          offset1 = offset + 4
      in ebind (utf8_decode (py_slice res offset1 (offset1 + content_size))) (\<lambda>content.
         Inr (content, offset1 + content_size)))"

definition read_res_payload :: "byte list \<Rightarrow> int \<Rightarrow> byte list \<times> int" where
  "read_res_payload res offset =
     (let payload_size = from_bytes_signed (py_slice res offset (offset + 4));
          offset1 = offset + 4
      in (py_slice res offset1 (offset1 + payload_size), offset1 + payload_size))"

text \<open>
  \<open>_parse_response(res)\<close> for a binary message.  The guard of the first branch is
  \<open>header.message_type == FULL_SERVER_RESPONSE or AUDIO_ONLY_RESPONSE\<close>, whose second
  operand is the constant 11; the serialisation method is \<open>res[2] >> num\<close> with
  \<open>num = 15\<close>.  Both are kept as written.
\<close>

definition parse_response :: "byte list \<Rightarrow> exn + response" where
  "parse_response res =
     ebind (py_index res 0) (\<lambda>r0.
     ebind (py_index res 1) (\<lambda>r1.
     ebind (py_index res 2) (\<lambda>r2.
     ebind (py_index res 3) (\<lambda>r3.
     (let num = (15 :: int);
          hd0 = (Header 0 0 NO_SERIALIZATION COMPRESSION_NO)
                  \<lparr>protocol_version := drop_bit 4 (uint r0) AND num,
                   header_size := uint r0 AND 0x0F,
                   message_type := drop_bit 4 (uint r1) AND num,
                   message_type_specific_flags := uint r1 AND 0x0F\<rparr>;
          resp = \<lparr>header = hd0,
                  serialization_method = drop_bit (nat num) (uint r2),
                  message_compression = uint r2 AND 0x0F,
                  reserved = uint r3,
                  optional = Optional EVENT_NONE None None,
                  payload = None\<rparr>;
          offset = (4 :: int)
      in if message_type hd0 = FULL_SERVER_RESPONSE \<or> AUDIO_ONLY_RESPONSE \<noteq> 0 then
           (if message_type_specific_flags hd0 = MsgTypeFlagWithEvent then
              (let ev = from_bytes_signed (py_slice res offset (offset + 4));
                   resp1 = resp\<lparr>optional := (optional resp)\<lparr>event := ev\<rparr>\<rparr>;
                   offset1 = offset + 4
               in if ev = EVENT_NONE then Inr resp1
                  else if ev = EVENT_ConnectionStarted then
                    ebind (read_res_content res offset1) (\<lambda>(c, offset2).
                    Inr (resp1\<lparr>optional := (optional resp1)\<lparr>connectionId := Some c\<rparr>\<rparr>))
                  else if ev = EVENT_ConnectionFailed then
                    ebind (read_res_content res offset1) (\<lambda>(c, offset2).
                    Inr (resp1\<lparr>optional := (optional resp1)\<lparr>response_meta_json := Some c\<rparr>\<rparr>))
                  else if ev = EVENT_SessionStarted \<or> ev = EVENT_SessionFailed
                          \<or> ev = EVENT_SessionFinished then
                    ebind (read_res_content res offset1) (\<lambda>(c, offset2).
                    ebind (read_res_content res offset2) (\<lambda>(m, offset3).
                    Inr (resp1\<lparr>optional :=
                           (optional resp1)\<lparr>sessionId := Some c, response_meta_json := Some m\<rparr>\<rparr>)))
                  else
                    ebind (read_res_content res offset1) (\<lambda>(c, offset2).
                    (let (p, offset3) = read_res_payload res offset2
                     in Inr (resp1\<lparr>optional := (optional resp1)\<lparr>sessionId := Some c\<rparr>,
                                   payload := Some p\<rparr>))))
            else Inr resp)
         else if message_type hd0 = ERROR_INFORMATION then
           (let code = from_bytes_signed (py_slice res offset (offset + 4));
                (p, offset2) = read_res_payload res (offset + 4)
            in Inr (resp\<lparr>optional := (optional resp)\<lparr>errorCode := code\<rparr>, payload := Some p\<rparr>))
         else Inr resp)))))"

text \<open>
  The events on which \<open>_parse_response\<close> dispatches to a layout of its own; for every
  other event it reads a session id followed by a payload.
\<close>

definition dispatched_events :: "int set" where
  "dispatched_events =
     {EVENT_NONE, EVENT_ConnectionStarted, EVENT_ConnectionFailed, EVENT_SessionStarted,
      EVENT_SessionFailed, EVENT_SessionFinished}"

text \<open>
  The fields of a decoded message that the round trip compares: message type, type flags,
  event, session id and payload.
\<close>

definition decode_fields ::
  "byte list \<Rightarrow> exn + int \<times> int \<times> int \<times> pystr option \<times> byte list option" where
  "decode_fields res =
     ebind (parse_response res) (\<lambda>r.
       Inr (message_type (header r), message_type_specific_flags (header r),
            event (optional r), sessionId (optional r), payload r))"

section \<open>STT request builder (stt\_client.py)\<close>

definition CLIENT_FULL_REQUEST :: int where "CLIENT_FULL_REQUEST = 1"
definition CLIENT_AUDIO_ONLY_REQUEST :: int where "CLIENT_AUDIO_ONLY_REQUEST = 2"
definition POS_SEQUENCE :: int where "POS_SEQUENCE = 1"
definition NEG_WITH_SEQUENCE :: int where "NEG_WITH_SEQUENCE = 3"

text \<open>
  \<open>RequestBuilder.new_audio_only_request(seq, segment, is_last)\<close>.  The gzip compressor
  of the Python library is the parameter \<open>gz\<close>.
\<close>

definition new_audio_only_request ::
  "(byte list \<Rightarrow> byte list) \<Rightarrow> int \<Rightarrow> byte list \<Rightarrow> bool \<Rightarrow> exn + byte list" where
  "new_audio_only_request gz seq segment is_last =
     (let h = Header CLIENT_AUDIO_ONLY_REQUEST
                (if is_last then NEG_WITH_SEQUENCE else POS_SEQUENCE)
                NO_SERIALIZATION COMPRESSION_GZIP
      in ebind (header_as_bytes h) (\<lambda>hb.
         ebind (pack_i (if is_last then - seq else seq)) (\<lambda>sb.
         (let compressed_segment = gz segment
          in ebind (pack_I (int (length compressed_segment))) (\<lambda>lb.
             Inr (hb @ sb @ lb @ compressed_segment))))))"

text \<open>
  \<open>RequestBuilder.new_full_client_request(seq, config)\<close>: the JSON document built from
  the configuration is serialised and compressed by library code;
  \<open>compressed_payload\<close> is the resulting byte string.
\<close>

definition new_full_client_request :: "int \<Rightarrow> byte list \<Rightarrow> exn + byte list" where
  "new_full_client_request seq compressed_payload =
     (let h = Header CLIENT_FULL_REQUEST POS_SEQUENCE JSON COMPRESSION_GZIP
      in ebind (header_as_bytes h) (\<lambda>hb.
         ebind (pack_i seq) (\<lambda>sb.
         ebind (pack_I (int (length compressed_payload))) (\<lambda>lb.
         Inr (hb @ sb @ lb @ compressed_payload)))))"

text \<open>
  The sequence field of a request as the STT \<open>ResponseParser\<close> reads it from a message
  with the positive-sequence flag: \<open>struct.unpack('>i', payload[:4])\<close> on the bytes after
  the header.
\<close>

definition sequence_field :: "byte list \<Rightarrow> int" where
  "sequence_field msg = from_bytes_signed (py_slice (py_slice msg 4 (int (length msg))) 0 4)"

definition flags_field :: "byte list \<Rightarrow> int" where
  "flags_field msg = uint (msg ! 1 AND 0x0F)"

section \<open>Stream session registry (backend\_server.py)\<close>

text \<open>
  The module keeps two dictionaries: \<open>active_streams\<close> maps a session id to
  \<open>{"live_id": ..., "cancel_event": asyncio.Event}\<close> and \<open>live_to_sessions\<close> maps a
  live id to the set of session ids registered under it.  An \<open>asyncio.Event\<close> is an
  object shared between the registry and the pipeline that polls it, so the events live in
  a store indexed by a reference; \<open>next_event\<close> is the next fresh reference.
\<close>

record stream_entry =
  stream_live_id :: "string option"
  cancel_event :: nat

record registry =
  active_streams :: "string \<rightharpoonup> stream_entry"
  live_to_sessions :: "string \<rightharpoonup> string set"
  events :: "nat \<Rightarrow> bool"
  next_event :: nat

definition empty_registry :: registry where
  "empty_registry =
     \<lparr>active_streams = Map.empty, live_to_sessions = Map.empty,
      events = (\<lambda>_. False), next_event = 0\<rparr>"

text \<open>Python truthiness of an \<open>Optional[str]\<close>: \<open>None\<close> and \<open>""\<close> are false.\<close>

fun truthy_str :: "string option \<Rightarrow> bool" where
  "truthy_str None = False"
| "truthy_str (Some s) = (s \<noteq> [])"

text \<open>\<open>register_stream_session(session_id, live_id)\<close>; returns the new event's reference.\<close>

definition register_stream_session ::
  "registry \<Rightarrow> string \<Rightarrow> string option \<Rightarrow> nat \<times> registry" where
  "register_stream_session r session_id lid =
     (let ev = next_event r;
          r1 = r\<lparr>events := (events r)(ev := False), next_event := Suc ev\<rparr>;
          r2 = r1\<lparr>active_streams :=
                 (active_streams r1)(session_id \<mapsto> \<lparr>stream_live_id = lid, cancel_event = ev\<rparr>)\<rparr>;
          r3 = (if truthy_str lid then
                  (let l = the lid;
                       old = (case live_to_sessions r2 l of None \<Rightarrow> {} | Some ss \<Rightarrow> ss)
                   in r2\<lparr>live_to_sessions := (live_to_sessions r2)(l \<mapsto> insert session_id old)\<rparr>)
                else r2)
      in (ev, r3))"

text \<open>
  \<open>cancel_stream_by_session(session_id)\<close>.  The stored stream is a two-key dictionary and
  the event an object, so both are truthy whenever they are present; nothing in the body
  can raise, so the \<open>except Exception: return 0\<close> branch has no counterpart.
\<close>

definition cancel_stream_by_session :: "registry \<Rightarrow> string \<Rightarrow> int \<times> registry" where
  "cancel_stream_by_session r session_id =
     (case active_streams r session_id of
        None \<Rightarrow> (0, r)
      | Some st \<Rightarrow>
          (let ev = cancel_event st;
               r' = (if \<not> events r ev then r\<lparr>events := (events r)(ev := True)\<rparr> else r)
           in (1, r')))"

text \<open>
  \<open>cancel_streams_by_live_id(live_id)\<close>: the session ids are copied into a list first;
  \<open>sids\<close> is that list (any enumeration of the set).
\<close>

fun cancel_all :: "registry \<Rightarrow> string list \<Rightarrow> int \<times> registry" where
  "cancel_all r [] = (0, r)"
| "cancel_all r (sid # sids) =
     (let (n, r1) = cancel_stream_by_session r sid;
          (m, r2) = cancel_all r1 sids
      in (n + m, r2))"

text \<open>\<open>cleanup_stream_session(session_id)\<close>.\<close>

definition cleanup_stream_session :: "registry \<Rightarrow> string \<Rightarrow> registry" where
  "cleanup_stream_session r session_id =
     (case active_streams r session_id of
        None \<Rightarrow> r
      | Some st \<Rightarrow>
          (let r1 = r\<lparr>active_streams := (active_streams r)(session_id := None)\<rparr>
           in if truthy_str (stream_live_id st) then
                (case live_to_sessions r1 (the (stream_live_id st)) of
                   None \<Rightarrow> r1
                 | Some ss \<Rightarrow>
                     if session_id \<in> ss then
                       (let ss' = ss - {session_id}
                        in if ss' = {}
                           then r1\<lparr>live_to_sessions :=
                                     (live_to_sessions r1)(the (stream_live_id st) := None)\<rparr>
                           else r1\<lparr>live_to_sessions :=
                                     (live_to_sessions r1)(the (stream_live_id st) \<mapsto> ss')\<rparr>)
                     else r1)
              else r1))"

section \<open>Avatar client (digital\_human\_client.py)\<close>

text \<open>
  The client holds a socket (or \<open>None\<close>) and the live id it is bound to.  The socket is
  an object whose \<open>state\<close> attribute is read when the code tests it.
\<close>

datatype ws_state = CONNECTING | OPEN | CLOSING | CLOSED

record dh_client =
  websocket :: "ws_state option"
  live_id :: "string option"

text \<open>\<open>DigitalHumanClient.__init__\<close>.\<close>

definition dh_init :: dh_client where
  "dh_init = \<lparr>websocket = None, live_id = None\<rparr>"

text \<open>\<open>is_connected\<close>.\<close>

definition is_connected :: "dh_client \<Rightarrow> bool" where
  "is_connected c = (websocket c = Some OPEN)"

text \<open>
  What the network does is given from outside.  An awaited call returns or raises;
  \<open>CancelledError\<close> is a \<open>BaseException\<close>, which \<open>except Exception\<close> does not
  catch, the other three are subclasses of \<open>Exception\<close>.
\<close>

datatype dh_exn = TimeoutError | ConnectionClosed | OtherError | CancelledError

datatype outcome = Returns | Raises dh_exn

datatype action = Send string | Sleep | Close

record dh_env =
  send_outcome :: outcome
  sleep_outcome :: outcome
  state_at_close :: ws_state
  close_outcome :: outcome

text \<open>
  \<open>stop_live\<close>: returns the client, the actions performed and the exception that
  escapes, if any.
\<close>

definition stop_live :: "dh_env \<Rightarrow> dh_client \<Rightarrow> dh_client \<times> action list \<times> dh_exn option" where
  "stop_live env c =
     (if websocket c = None then (c\<lparr>live_id := None\<rparr>, [], None)
      else if \<not> truthy_str (live_id c) then (c, [], None)
      else
        (case send_outcome env of
           Returns \<Rightarrow> (c\<lparr>live_id := None\<rparr>, [Send ''|CTL|01|''], None)
         | Raises CancelledError \<Rightarrow> (c, [Send ''|CTL|01|''], Some CancelledError)
         | Raises e \<Rightarrow> (c\<lparr>live_id := None\<rparr>, [Send ''|CTL|01|''], None)))"

text \<open>
  \<open>disconnect\<close>.  The body of the \<open>try\<close> is \<open>disconnect_try\<close>; the three handlers
  swallow every \<open>Exception\<close>, and the \<open>finally\<close> block clears both fields whatever
  happened.
\<close>

definition disconnect_close :: "dh_env \<Rightarrow> dh_client \<Rightarrow> action list \<times> dh_exn option" where
  "disconnect_close env c =
     (if websocket c \<noteq> None \<and> state_at_close env \<noteq> CLOSED then
        (case close_outcome env of Returns \<Rightarrow> ([Close], None) | Raises e \<Rightarrow> ([Close], Some e))
      else ([], None))"

definition disconnect_try :: "dh_env \<Rightarrow> dh_client \<Rightarrow> dh_client \<times> action list \<times> dh_exn option" where
  "disconnect_try env c =
     (if truthy_str (live_id c) then
        (case stop_live env c of
           (c1, tr1, Some e) \<Rightarrow> (c1, tr1, Some e)
         | (c1, tr1, None) \<Rightarrow>
             (case sleep_outcome env of
                Raises e \<Rightarrow> (c1, tr1 @ [Sleep], Some e)
              | Returns \<Rightarrow>
                  (let (tr2, r) = disconnect_close env c1 in (c1, tr1 @ [Sleep] @ tr2, r))))
      else (let (tr2, r) = disconnect_close env c in (c, tr2, r)))"

definition disconnect :: "dh_env \<Rightarrow> dh_client \<Rightarrow> dh_client \<times> action list \<times> dh_exn option" where
  "disconnect env c =
     (if websocket c \<noteq> None then
        (let (c1, tr, r) = disconnect_try env c;
             escaped = (case r of Some CancelledError \<Rightarrow> Some CancelledError | _ \<Rightarrow> None)
         in (c1\<lparr>websocket := None, live_id := None\<rparr>, tr, escaped))
      else (c, [], None))"

text \<open>
  A successful \<open>connect\<close> stores an open socket; \<open>_start_live_internal\<close> raises
  without a socket and binds the live id otherwise, before it sends anything.
\<close>

definition connect_ok :: "dh_client \<Rightarrow> dh_client" where
  "connect_ok c = c\<lparr>websocket := Some OPEN\<rparr>"

definition start_live_bind :: "dh_client \<Rightarrow> string \<Rightarrow> dh_client option" where
  "start_live_bind c lid = (if websocket c = None then None else Some (c\<lparr>live_id := Some lid\<rparr>))"

text \<open>The client invariant: a live id is bound only while a socket is held.\<close>

definition dh_inv :: "dh_client \<Rightarrow> bool" where
  "dh_inv c = (websocket c = None \<longrightarrow> live_id c = None)"

text \<open>
  The states a client can be in: it is created by \<open>__init__\<close> and changed by its own
  methods (\<open>connect\<close> may also leave a socket that is not open behind), by the network,
  which changes the state of a socket, and by the server module, whose only assignment to
  the client sets \<open>live_id\<close> to \<open>None\<close>.
\<close>

inductive dh_reachable :: "dh_client \<Rightarrow> bool" where
  created: "dh_reachable dh_init"
| connected: "dh_reachable c \<Longrightarrow> dh_reachable (connect_ok c)"
| bound: "dh_reachable c \<Longrightarrow> start_live_bind c lid = Some c' \<Longrightarrow> dh_reachable c'"
| stopped: "dh_reachable c \<Longrightarrow> dh_reachable (fst (stop_live env c))"
| disconnected: "dh_reachable c \<Longrightarrow> dh_reachable (fst (disconnect env c))"
| socket_state: "dh_reachable c \<Longrightarrow> dh_reachable (c\<lparr>websocket := Some st\<rparr>)"
| unbound: "dh_reachable c \<Longrightarrow> dh_reachable (c\<lparr>live_id := None\<rparr>)"

section \<open>Join-room coordinator (backend\_server.py)\<close>

text \<open>
  Event-loop time is a Python float, an IEEE double.  The arithmetic of doubles is not
  modelled; the four operations the code applies to its clock readings are parameters:
  the subtraction \<open>a - b\<close>, the comparison \<open>a < b\<close>, the conversion \<open>int(a)\<close>, and the
  double of a whole number (for the literal \<open>10.0\<close>).
\<close>

record 't float_ops =
  fsub :: "'t \<Rightarrow> 't \<Rightarrow> 't"
  fless :: "'t \<Rightarrow> 't \<Rightarrow> bool"
  fint :: "'t \<Rightarrow> int"
  of_whole :: "int \<Rightarrow> 't"

text \<open>
  Doubles that hold whole numbers of seconds (below \<open>2 ^ 53\<close>) subtract exactly and
  compare as the integers do; on them the four operations are those of the integers.
\<close>

definition whole_seconds :: "int float_ops" where
  "whole_seconds =
     \<lparr>fsub = (\<lambda>a b. a - b), fless = (\<lambda>a b. a < b), fint = (\<lambda>a. a), of_whole = (\<lambda>n. n)\<rparr>"

text \<open>
  The module state that \<open>join_room\<close> reads and writes.  A pending request is an
  \<open>asyncio.Task\<close>, of which the code only asks \<open>done()\<close> (the field
  \<open>task_done\<close>).  \<open>connection_lock\<close> is true while the lock is held.
\<close>

record 't session_info =
  status :: string
  created_at :: 't

record task =
  task_done :: bool

record 't server =
  digital_human_client :: "dh_client option"
  active_sessions :: "string \<rightharpoonup> 't session_info"
  pending_requests :: "string \<rightharpoonup> task"
  failed_requests :: "string \<rightharpoonup> 't"
  connection_lock :: bool

text \<open>The module state after \<open>startup_event\<close>: the client exists, the tables are empty.\<close>

definition startup_server :: "'t server" where
  "startup_server =
     \<lparr>digital_human_client = Some dh_init, active_sessions = Map.empty,
      pending_requests = Map.empty, failed_requests = Map.empty, connection_lock = False\<rparr>"

text \<open>\<open>COOLDOWN_PERIOD = 10.0\<close>.\<close>

definition COOLDOWN_PERIOD :: "'t float_ops \<Rightarrow> 't" where
  "COOLDOWN_PERIOD fl = of_whole fl 10"

text \<open>The \<open>detail\<close> texts of the HTTP exceptions, one constructor for each message.\<close>

datatype detail =
    NotInitialized | InProgress | Cooldown int | ConnectTimeout | ConnectFailed
  | StartLiveTimeout | RequestTimeout | FriendlyMessage

datatype http_exception = HTTPException int detail

datatype join_ok = AlreadyActive | Joined

text \<open>
  A request either has finished (with an exception or a response), or is suspended
  waiting for the connection lock, or is suspended waiting for its task.
\<close>

datatype progress = Finished "http_exception + join_ok" | AwaitLock | AwaitTask

definition pending_in_progress :: "'t server \<Rightarrow> string \<Rightarrow> bool" where
  "pending_in_progress s lid =
     (case pending_requests s lid of None \<Rightarrow> False | Some t \<Rightarrow> \<not> task_done t)"

text \<open>
  The check of an existing session: \<open>True\<close> when the request is answered with the
  session already active; otherwise the stale entry is removed.
\<close>

definition check_existing :: "'t server \<Rightarrow> dh_client \<Rightarrow> string \<Rightarrow> bool \<times> 't server" where
  "check_existing s c lid =
     (case active_sessions s lid of
        None \<Rightarrow> (False, s)
      | Some session \<Rightarrow>
          if status session = ''active'' then
            (if is_connected c \<and> live_id c = Some lid then (True, s)
             else (False,
                   s\<lparr>active_sessions := (active_sessions s)(lid := None),
                     digital_human_client :=
                       Some (if live_id c = Some lid then c\<lparr>live_id := None\<rparr> else c)\<rparr>))
          else (False, s\<lparr>active_sessions := (active_sessions s)(lid := None)\<rparr>))"

text \<open>The condition under which that check answers the request.\<close>

definition already_active :: "'t server \<Rightarrow> dh_client \<Rightarrow> string \<Rightarrow> bool" where
  "already_active s c lid =
     (case active_sessions s lid of
        None \<Rightarrow> False
      | Some session \<Rightarrow> status session = ''active'' \<and> is_connected c \<and> live_id c = Some lid)"

text \<open>
  The part of \<open>join_room\<close> before the lock: client check, existing session, pending
  request, cooldown.  \<open>Inr True\<close> is the early return, \<open>Inr False\<close> goes on to the lock.
\<close>

definition join_room_checks ::
  "'t float_ops \<Rightarrow> 't server \<Rightarrow> string \<Rightarrow> 't \<Rightarrow> (http_exception + bool) \<times> 't server" where
  "join_room_checks fl s lid current_time =
     (case digital_human_client s of
        None \<Rightarrow> (Inl (HTTPException 500 NotInitialized), s)
      | Some c \<Rightarrow>
          (let (active, s1) = check_existing s c lid
           in if active then (Inr True, s1)
              else if pending_in_progress s1 lid then (Inl (HTTPException 429 InProgress), s1)
              else
                (case failed_requests s1 lid of
                   None \<Rightarrow> (Inr False, s1)
                 | Some failed_at \<Rightarrow>
                     (let time_since_failure = fsub fl current_time failed_at
                      in if fless fl time_since_failure (COOLDOWN_PERIOD fl) then
                           (let remaining_cooldown =
                                  fsub fl (COOLDOWN_PERIOD fl) time_since_failure
                            in (Inl (HTTPException 429 (Cooldown (fint fl remaining_cooldown))),
                                s1))
                         else (Inr False,
                               s1\<lparr>failed_requests := (failed_requests s1)(lid := None)\<rparr>)))))"

text \<open>The \<open>except HTTPException\<close> handler: record the failure time and re-raise.\<close>

definition record_failure :: "'t server \<Rightarrow> string \<Rightarrow> 't \<Rightarrow> 't server" where
  "record_failure s lid t = s\<lparr>failed_requests := (failed_requests s)(lid \<mapsto> t)\<rparr>"

text \<open>
  Inside the lock: the pending request is checked again (the session and the cooldown
  are not), then the task is created and stored, and the request awaits it, still holding
  the lock.  Leaving the \<open>async with\<close> block by an exception releases the lock.
  \<open>failure_time\<close> is the clock reading of the handler.
\<close>

definition join_room_locked :: "'t server \<Rightarrow> string \<Rightarrow> 't \<Rightarrow> progress \<times> 't server" where
  "join_room_locked s lid failure_time =
     (if pending_in_progress s lid then
        (Finished (Inl (HTTPException 429 InProgress)),
         record_failure (s\<lparr>connection_lock := False\<rparr>) lid failure_time)
      else
        (AwaitTask,
         s\<lparr>pending_requests := (pending_requests s)(lid \<mapsto> \<lparr>task_done = False\<rparr>),
           connection_lock := True\<rparr>))"

text \<open>
  A request from its arrival to its first suspension.  A request that finds the lock
  held waits for it and goes on with \<open>join_room_locked\<close> when it gets the lock.
\<close>

definition join_room_begin ::
  "'t float_ops \<Rightarrow> 't server \<Rightarrow> string \<Rightarrow> 't \<Rightarrow> 't \<Rightarrow> progress \<times> 't server" where
  "join_room_begin fl s lid current_time failure_time =
     (case join_room_checks fl s lid current_time of
        (Inl e, s1) \<Rightarrow> (Finished (Inl e), record_failure s1 lid failure_time)
      | (Inr True, s1) \<Rightarrow> (Finished (Inr AlreadyActive), s1)
      | (Inr False, s1) \<Rightarrow>
          if connection_lock s1 then (AwaitLock, s1) else join_room_locked s1 lid failure_time)"

text \<open>
  The task.  Each pass of its retry loop connects if needed and checks the connection:
  it succeeds, times out, or fails with another exception, after which the client is
  disconnected.  \<open>start_live_rtc\<close> then returns, times out, or raises.
\<close>

datatype attempt = AttemptOk | AttemptTimeout | AttemptError

datatype start_outcome = StartOk | StartTimeout | StartError

definition after_disconnect :: "dh_client \<Rightarrow> dh_client" where
  "after_disconnect c =
     (if websocket c \<noteq> None then c\<lparr>websocket := None, live_id := None\<rparr> else c)"

function connect_loop ::
  "(nat \<Rightarrow> attempt) \<Rightarrow> nat \<Rightarrow> dh_client \<Rightarrow> (http_exception + unit) \<times> dh_client" where
  "connect_loop attempts retry_count c =
     (if retry_count < 3 then
        (case attempts retry_count of
           AttemptOk \<Rightarrow> (Inr (), connect_ok c)
         | AttemptTimeout \<Rightarrow>
             if Suc retry_count \<ge> 3 then (Inl (HTTPException 408 ConnectTimeout), c)
             else connect_loop attempts (Suc retry_count) c
         | AttemptError \<Rightarrow>
             if Suc retry_count \<ge> 3
             then (Inl (HTTPException 503 ConnectFailed), after_disconnect c)
             else connect_loop attempts (Suc retry_count) (after_disconnect c))
      else (Inr (), c))"
  by pat_completeness auto
termination
  by (relation "measure (\<lambda>(attempts, retry_count, c). 3 - retry_count)") auto

declare connect_loop.simps [simp del]

text \<open>
  What the task raises: an HTTP exception, or some other exception (which the outer
  handler turns into a 500 with a friendly message).
\<close>

datatype task_exn = TaskHTTP http_exception | TaskOther

definition join_room_task ::
  "(nat \<Rightarrow> attempt) \<Rightarrow> start_outcome \<Rightarrow> string \<Rightarrow> dh_client
     \<Rightarrow> (task_exn + unit) \<times> dh_client" where
  "join_room_task attempts start lid c =
     (case connect_loop attempts 0 c of
        (Inl e, c1) \<Rightarrow> (Inl (TaskHTTP e), c1)
      | (Inr u, c1) \<Rightarrow>
          (case start_live_bind c1 lid of
             None \<Rightarrow> (Inl TaskOther, c1)
           | Some c2 \<Rightarrow>
               (case start of
                  StartOk \<Rightarrow> (Inr (), c2)
                | StartTimeout \<Rightarrow> (Inl (TaskHTTP (HTTPException 408 StartLiveTimeout)), c2)
                | StartError \<Rightarrow> (Inl TaskOther, c2))))"

text \<open>
  The request when its task has finished within the 90 seconds: the task's \<open>finally\<close>
  block has removed the pending entry; a success has stored the session; an HTTP exception
  passes through the \<open>except HTTPException\<close> handler, any other exception through the
  general handler, which cleans up, records the failure and raises a 500.  The lock is
  released on the way out.
\<close>

definition join_room_complete ::
  "'t server \<Rightarrow> string \<Rightarrow> (nat \<Rightarrow> attempt) \<Rightarrow> start_outcome \<Rightarrow> 't \<Rightarrow> 't
     \<Rightarrow> (http_exception + join_ok) \<times> 't server" where
  "join_room_complete s lid attempts start created failure_time =
     (let (r, cl) =
            (case digital_human_client s of
               None \<Rightarrow> (Inl TaskOther, None)
             | Some c \<Rightarrow> (let (r, c1) = join_room_task attempts start lid c in (r, Some c1)));
          s1 = s\<lparr>digital_human_client := cl,
                 pending_requests := (pending_requests s)(lid := None),
                 connection_lock := False\<rparr>
      in case r of
           Inr u \<Rightarrow>
             (Inr Joined,
              s1\<lparr>active_sessions :=
                    (active_sessions s1)(lid \<mapsto> \<lparr>status = ''active'', created_at = created\<rparr>)\<rparr>)
         | Inl (TaskHTTP e) \<Rightarrow> (Inl e, record_failure s1 lid failure_time)
         | Inl TaskOther \<Rightarrow>
             (Inl (HTTPException 500 FriendlyMessage),
              record_failure (s1\<lparr>active_sessions := (active_sessions s1)(lid := None)\<rparr>)
                lid failure_time))"

text \<open>
  The request when the 90 seconds run out first: the task is cancelled with the client in
  some state \<open>c\<close>, the pending entry is removed and a 408 is raised.
\<close>

definition join_room_timeout ::
  "'t server \<Rightarrow> string \<Rightarrow> dh_client \<Rightarrow> 't \<Rightarrow> (http_exception + join_ok) \<times> 't server" where
  "join_room_timeout s lid c failure_time =
     (Inl (HTTPException 408 RequestTimeout),
      record_failure
        (s\<lparr>digital_human_client := Some c,
           pending_requests := (pending_requests s)(lid := None),
           connection_lock := False\<rparr>) lid failure_time)"

text \<open>
  Two runs of the server, on whole seconds, in which every connection attempt succeeds.

  \<open>cooldown_scenario\<close>: a first request for \<open>room\<close> arrives at time 0 and awaits its
  task; a second one arrives at time 1 and is turned away; the first one completes at
  time 2.

  \<open>lock_waiter_scenario\<close>: while a join for \<open>other\<close> holds the lock, two requests for
  \<open>room\<close> arrive at times 1 and 2 and wait for the lock.  The join for \<open>other\<close>
  completes at time 3; the first waiter takes the lock at time 4 and completes at time 5;
  the second waiter takes the lock at time 6 and awaits its task.
\<close>

definition always_ok :: "nat \<Rightarrow> attempt" where
  "always_ok i = AttemptOk"

definition cooldown_scenario :: "int server" where
  "cooldown_scenario =
     (let s1 = snd (join_room_begin whole_seconds startup_server ''room'' 0 0);
          s2 = snd (join_room_begin whole_seconds s1 ''room'' 1 1)
      in snd (join_room_complete s2 ''room'' always_ok StartOk 2 2))"

definition lock_waiter_scenario :: "int server" where
  "lock_waiter_scenario =
     (let s1 = snd (join_room_begin whole_seconds startup_server ''other'' 0 0);
          s2 = snd (join_room_begin whole_seconds s1 ''room'' 1 1);
          s3 = snd (join_room_begin whole_seconds s2 ''room'' 2 2);
          s4 = snd (join_room_complete s3 ''other'' always_ok StartOk 3 3);
          s5 = snd (join_room_locked s4 ''room'' 4);
          s6 = snd (join_room_complete s5 ''room'' always_ok StartOk 5 5)
      in snd (join_room_locked s6 ''room'' 6))"

section \<open>STT client (stt\_client.py)\<close>

text \<open>
  The fields of \<open>STTClient\<close> that \<open>send_audio\<close> and
  \<open>_send_full_client_request\<close> read or write.  \<open>stt_is_connected\<close> is the attribute
  \<open>is_connected\<close>, \<open>stt_websocket\<close> the socket with its state, \<open>seq_lock\<close> is true
  while \<open>_seq_lock\<close> is held.  The \<open>on_error\<close> callback is supplied by the caller of
  the client; of a callback the model keeps whether a call to it returns or raises.  Clock
  readings (\<open>last_activity\<close>) are left out.
\<close>

record stt_config =
  sample_rate :: int
  channels :: int
  bits :: int

record stt_session =
  config :: stt_config
  total_audio_bytes :: int

record stt_client =
  stt_is_connected :: bool
  current_session :: "stt_session option"
  stt_websocket :: "ws_state option"
  seq :: int
  seq_lock :: bool
  on_error :: "outcome option"
  audio_buffer :: "byte list list"
  buffer_size :: int
  stats_total_audio_bytes :: int

text \<open>\<open>STTClient.__init__\<close>: the sequence counter starts at 1.\<close>

definition stt_init :: stt_client where
  "stt_init =
     \<lparr>stt_is_connected = False, current_session = None, stt_websocket = None, seq = 1,
      seq_lock = False, on_error = None, audio_buffer = [], buffer_size = 0,
      stats_total_audio_bytes = 0\<rparr>"

text \<open>
  What a call raises: an exception of the request builder, or one that escapes from an
  awaited send or from the error callback.
\<close>

datatype raised = BuildError exn | Escaped dh_exn

text \<open>Little-endian \<open>struct.pack('<I', n)\<close> and \<open>struct.pack('<H', n)\<close>.\<close>

definition pack_le_I :: "int \<Rightarrow> exn + byte list" where
  "pack_le_I n = (if 0 \<le> n \<and> n < 2 ^ 32 then Inr (rev (be32 n)) else Inl StructError)"

definition pack_le_H :: "int \<Rightarrow> exn + byte list" where
  "pack_le_H n =
     (if 0 \<le> n \<and> n < 2 ^ 16 then Inr [word_of_int n, word_of_int (n div 2 ^ 8)]
      else Inl StructError)"

text \<open>\<open>CommonUtils.pcm_to_wav\<close>: a 44-byte RIFF header in front of the samples.\<close>

definition pcm_to_wav :: "byte list \<Rightarrow> int \<Rightarrow> int \<Rightarrow> int \<Rightarrow> exn + byte list" where
  "pcm_to_wav pcm_data rate chans nbits =
     ebind (pack_le_I (36 + int (length pcm_data))) (\<lambda>file_size.
     ebind (pack_le_I 16) (\<lambda>fmt_size.
     ebind (pack_le_H 1) (\<lambda>audio_format.
     ebind (pack_le_H chans) (\<lambda>n_channels.
     ebind (pack_le_I rate) (\<lambda>rate_bytes.
     ebind (pack_le_I (rate * chans * nbits div 8)) (\<lambda>byte_rate.
     ebind (pack_le_H (chans * nbits div 8)) (\<lambda>block_align.
     ebind (pack_le_H nbits) (\<lambda>bit_depth.
     ebind (pack_le_I (int (length pcm_data))) (\<lambda>data_size.
     Inr ([0x52, 0x49, 0x46, 0x46] @ file_size @ [0x57, 0x41, 0x56, 0x45]
          @ [0x66, 0x6D, 0x74, 0x20] @ fmt_size @ audio_format @ n_channels @ rate_bytes
          @ byte_rate @ block_align @ bit_depth
          @ [0x64, 0x61, 0x74, 0x61] @ data_size @ pcm_data))))))))))"

text \<open>\<open>CommonUtils.validate_pcm_audio\<close>.\<close>

definition validate_pcm_audio :: "byte list \<Rightarrow> int \<Rightarrow> int \<Rightarrow> bool" where
  "validate_pcm_audio audio_data rate chans =
     (if int (length audio_data) mod 2 \<noteq> 0 then False
      else
        (let expected_bytes_per_second = rate * chans * 2;
             max_expected_length = expected_bytes_per_second * 10
         in if int (length audio_data) > max_expected_length then False else True))"

text \<open>\<open>deque(maxlen=1000).append\<close>: a full buffer drops its oldest element.\<close>

definition deque_append :: "'a list \<Rightarrow> 'a \<Rightarrow> 'a list" where
  "deque_append q x = (if length q < 1000 then q @ [x] else tl q @ [x])"

text \<open>
  A call of \<open>send_audio\<close> or \<open>_send_full_client_request\<close> runs until it returns or
  raises, or until it is suspended: waiting for the sequence lock, or waiting for
  \<open>websocket.send\<close> with the request it built from the sequence number it read.
\<close>

datatype stt_progress =
    SendFinished "raised + bool" | SendAwaitLock | SendAwaitSend int "byte list"

text \<open>
  The \<open>except Exception\<close> handler of \<open>send_audio\<close>: the callback is called when it is
  set, and what the callback raises escapes.  Leaving the \<open>async with\<close> block releases
  the lock.
\<close>

definition send_audio_handler :: "stt_client \<Rightarrow> (raised + bool) \<times> stt_client" where
  "send_audio_handler c =
     (case on_error c of
        None \<Rightarrow> (Inr False, c\<lparr>seq_lock := False\<rparr>)
      | Some Returns \<Rightarrow> (Inr False, c\<lparr>seq_lock := False\<rparr>)
      | Some (Raises e) \<Rightarrow> (Inl (Escaped e), c\<lparr>seq_lock := False\<rparr>))"

text \<open>
  \<open>send_audio\<close> from the moment it holds the lock to its suspension in
  \<open>websocket.send\<close>.  The session is read again here; it may have been dropped while the
  call waited for the lock, and the attribute access then raises inside the \<open>try\<close>.
\<close>

definition send_audio_locked ::
  "(byte list \<Rightarrow> byte list) \<Rightarrow> stt_client \<Rightarrow> byte list \<Rightarrow> bool \<Rightarrow> stt_progress \<times> stt_client" where
  "send_audio_locked gz c0 audio_data is_last =
     (let c = c0\<lparr>seq_lock := True\<rparr>
      in case current_session c of
           None \<Rightarrow> (let (r, c1) = send_audio_handler c in (SendFinished r, c1))
         | Some session \<Rightarrow>
             (case pcm_to_wav audio_data (sample_rate (config session))
                     (channels (config session)) (bits (config session)) of
                Inl e \<Rightarrow> (let (r, c1) = send_audio_handler c in (SendFinished r, c1))
              | Inr wav_audio_data \<Rightarrow>
                  if \<not> validate_pcm_audio audio_data (sample_rate (config session))
                         (channels (config session))
                  then (SendFinished (Inr False), c\<lparr>seq_lock := False\<rparr>)
                  else
                    (let n = int (length audio_data);
                         c1 = c\<lparr>audio_buffer := deque_append (audio_buffer c) audio_data,
                                buffer_size := buffer_size c + n,
                                current_session :=
                                  Some (session\<lparr>total_audio_bytes := total_audio_bytes session + n\<rparr>),
                                stats_total_audio_bytes := stats_total_audio_bytes c + n\<rparr>;
                         current_seq = seq c1
                     in case new_audio_only_request gz current_seq wav_audio_data is_last of
                          Inl e \<Rightarrow> (let (r, c2) = send_audio_handler c1 in (SendFinished r, c2))
                        | Inr request \<Rightarrow> (SendAwaitSend current_seq request, c1))))"

text \<open>\<open>send_audio\<close> from its call to its first suspension.\<close>

definition send_audio_begin ::
  "(byte list \<Rightarrow> byte list) \<Rightarrow> stt_client \<Rightarrow> byte list \<Rightarrow> bool \<Rightarrow> stt_progress \<times> stt_client" where
  "send_audio_begin gz c audio_data is_last =
     (if \<not> stt_is_connected c then (SendFinished (Inr False), c)
      else if current_session c = None then (SendFinished (Inr False), c)
      else if stt_websocket c \<noteq> Some OPEN then (SendFinished (Inr False), c)
      else if seq_lock c then (SendAwaitLock, c)
      else send_audio_locked gz c audio_data is_last)"

text \<open>
  \<open>send_audio\<close> when its wait for the lock comes back.  The wait is the entry of
  \<open>async with self._seq_lock\<close>, which stands before the \<open>try\<close>: when it returns, the
  call holds the lock and goes on; when it raises (the task was cancelled while it
  waited), the exception escapes and the client is as it was.
\<close>

definition send_audio_resume ::
  "(byte list \<Rightarrow> byte list) \<Rightarrow> outcome \<Rightarrow> stt_client \<Rightarrow> byte list \<Rightarrow> bool
     \<Rightarrow> stt_progress \<times> stt_client" where
  "send_audio_resume gz waited c audio_data is_last =
     (case waited of
        Returns \<Rightarrow> send_audio_locked gz c audio_data is_last
      | Raises e \<Rightarrow> (SendFinished (Inl (Escaped e)), c))"

text \<open>
  \<open>send_audio\<close> when \<open>websocket.send\<close> comes back: the counter is incremented after a
  successful send only.
\<close>

definition send_audio_end :: "outcome \<Rightarrow> stt_client \<Rightarrow> (raised + bool) \<times> stt_client" where
  "send_audio_end sent c =
     (case sent of
        Returns \<Rightarrow> (Inr True, c\<lparr>seq := seq c + 1, seq_lock := False\<rparr>)
      | Raises CancelledError \<Rightarrow> (Inl (Escaped CancelledError), c\<lparr>seq_lock := False\<rparr>)
      | Raises e \<Rightarrow> send_audio_handler c)"

text \<open>
  \<open>_send_full_client_request\<close>, in the same parts.  It has no handler: whatever the
  builder, the wait for the lock or the send raises escapes to \<open>connect\<close>.  \<open>compressed_payload\<close> is the
  compressed JSON document of the configuration.
\<close>

definition send_full_client_request_locked ::
  "stt_client \<Rightarrow> byte list \<Rightarrow> stt_progress \<times> stt_client" where
  "send_full_client_request_locked c compressed_payload =
     (let current_seq = seq c
      in case new_full_client_request current_seq compressed_payload of
           Inl e \<Rightarrow> (SendFinished (Inl (BuildError e)), c\<lparr>seq_lock := False\<rparr>)
         | Inr request \<Rightarrow> (SendAwaitSend current_seq request, c\<lparr>seq_lock := True\<rparr>))"

definition send_full_client_request_begin ::
  "stt_client \<Rightarrow> byte list \<Rightarrow> stt_progress \<times> stt_client" where
  "send_full_client_request_begin c compressed_payload =
     (if seq_lock c then (SendAwaitLock, c)
      else send_full_client_request_locked c compressed_payload)"

definition send_full_client_request_resume ::
  "outcome \<Rightarrow> stt_client \<Rightarrow> byte list \<Rightarrow> stt_progress \<times> stt_client" where
  "send_full_client_request_resume waited c compressed_payload =
     (case waited of
        Returns \<Rightarrow> send_full_client_request_locked c compressed_payload
      | Raises e \<Rightarrow> (SendFinished (Inl (Escaped e)), c))"

definition send_full_client_request_end ::
  "outcome \<Rightarrow> stt_client \<Rightarrow> (raised + bool) \<times> stt_client" where
  "send_full_client_request_end sent c =
     (case sent of
        Returns \<Rightarrow> (Inr True, c\<lparr>seq := seq c + 1, seq_lock := False\<rparr>)
      | Raises e \<Rightarrow> (Inl (Escaped e), c\<lparr>seq_lock := False\<rparr>))"

text \<open>
  Concurrent callers.  Calls run as coroutines on one event loop and are interleaved at
  their suspension points only.  A system is the client, the calls with their progress,
  and the \<open>wire\<close>: the sequence number and the request of every send that succeeded, in
  order.  A step starts a call, lets a waiting call take the free lock, cancels a call
  that waits for the lock, completes a pending send with some outcome (a cancellation is
  one of them), or is a step of any other method of the client, none of which assigns
  \<open>seq\<close> or touches the lock.
\<close>

datatype stt_call = AudioCall "byte list" bool | FullRequestCall "byte list"

datatype stt_pc =
    NotStarted stt_call | WaitingLock stt_call | Sending stt_call int "byte list"
  | Returned "raised + bool"

record stt_system =
  client :: stt_client
  calls :: "nat \<Rightarrow> stt_pc"
  wire :: "(int \<times> byte list) list"

fun call_begin ::
  "(byte list \<Rightarrow> byte list) \<Rightarrow> stt_client \<Rightarrow> stt_call \<Rightarrow> stt_progress \<times> stt_client" where
  "call_begin gz c (AudioCall audio_data is_last) = send_audio_begin gz c audio_data is_last"
| "call_begin gz c (FullRequestCall p) = send_full_client_request_begin c p"

fun call_locked ::
  "(byte list \<Rightarrow> byte list) \<Rightarrow> stt_client \<Rightarrow> stt_call \<Rightarrow> stt_progress \<times> stt_client" where
  "call_locked gz c (AudioCall audio_data is_last) = send_audio_locked gz c audio_data is_last"
| "call_locked gz c (FullRequestCall p) = send_full_client_request_locked c p"

fun call_resume ::
  "(byte list \<Rightarrow> byte list) \<Rightarrow> outcome \<Rightarrow> stt_client \<Rightarrow> stt_call
     \<Rightarrow> stt_progress \<times> stt_client" where
  "call_resume gz waited c (AudioCall audio_data is_last)
     = send_audio_resume gz waited c audio_data is_last"
| "call_resume gz waited c (FullRequestCall p) = send_full_client_request_resume waited c p"

fun call_end :: "stt_call \<Rightarrow> outcome \<Rightarrow> stt_client \<Rightarrow> (raised + bool) \<times> stt_client" where
  "call_end (AudioCall audio_data is_last) sent c = send_audio_end sent c"
| "call_end (FullRequestCall p) sent c = send_full_client_request_end sent c"

fun after_begin :: "stt_call \<Rightarrow> stt_progress \<Rightarrow> stt_pc" where
  "after_begin call (SendFinished r) = Returned r"
| "after_begin call SendAwaitLock = WaitingLock call"
| "after_begin call (SendAwaitSend k request) = Sending call k request"

inductive stt_step :: "(byte list \<Rightarrow> byte list) \<Rightarrow> stt_system \<Rightarrow> stt_system \<Rightarrow> bool"
  for gz :: "byte list \<Rightarrow> byte list" where
  start:
    "calls S i = NotStarted call \<Longrightarrow> call_begin gz (client S) call = (p, c) \<Longrightarrow>
     stt_step gz S (S\<lparr>client := c, calls := (calls S)(i := after_begin call p)\<rparr>)"
| acquire:
    "calls S i = WaitingLock call \<Longrightarrow> \<not> seq_lock (client S) \<Longrightarrow>
     call_resume gz Returns (client S) call = (p, c) \<Longrightarrow>
     stt_step gz S (S\<lparr>client := c, calls := (calls S)(i := after_begin call p)\<rparr>)"
| wait_cancelled:
    "calls S i = WaitingLock call \<Longrightarrow>
     call_resume gz (Raises CancelledError) (client S) call = (p, c) \<Longrightarrow>
     stt_step gz S (S\<lparr>client := c, calls := (calls S)(i := after_begin call p)\<rparr>)"
| finish:
    "calls S i = Sending call k request \<Longrightarrow> call_end call sent (client S) = (r, c) \<Longrightarrow>
     stt_step gz S
       (S\<lparr>client := c, calls := (calls S)(i := Returned r),
          wire := (if sent = Returns then wire S @ [(k, request)] else wire S)\<rparr>)"
| other:
    "seq c = seq (client S) \<Longrightarrow> seq_lock c = seq_lock (client S) \<Longrightarrow>
     stt_step gz S (S\<lparr>client := c\<rparr>)"

text \<open>The systems that can arise from a fresh client and calls not yet started.\<close>

inductive stt_reachable :: "(byte list \<Rightarrow> byte list) \<Rightarrow> stt_system \<Rightarrow> bool"
  for gz :: "byte list \<Rightarrow> byte list" where
  fresh:
    "client S = stt_init \<Longrightarrow> wire S = [] \<Longrightarrow> (\<And>i. \<exists>call. calls S i = NotStarted call) \<Longrightarrow>
     stt_reachable gz S"
| step: "stt_reachable gz S \<Longrightarrow> stt_step gz S S' \<Longrightarrow> stt_reachable gz S'"

text \<open>The sequence number a call has read, while it is suspended in \<open>websocket.send\<close>.\<close>

fun pc_seq :: "stt_pc \<Rightarrow> int option" where
  "pc_seq (Sending call k request) = Some k"
| "pc_seq (NotStarted call) = None"
| "pc_seq (WaitingLock call) = None"
| "pc_seq (Returned r) = None"

definition sending_seq :: "stt_system \<Rightarrow> nat \<Rightarrow> int option" where
  "sending_seq S i = pc_seq (calls S i)"

text \<open>
  The invariant of the counter: the sends that succeeded carried 1, 2, ... up to the
  counter minus one, each once and in this order; a call suspended in a send has read the
  current value and holds the lock; and at most one call is suspended in a send.
\<close>

definition seq_invariant :: "stt_system \<Rightarrow> bool" where
  "seq_invariant S =
     (1 \<le> seq (client S) \<and> map fst (wire S) = [1..seq (client S) - 1] \<and>
      (\<forall>i k. sending_seq S i = Some k \<longrightarrow> k = seq (client S) \<and> seq_lock (client S)) \<and>
      (\<forall>i j. sending_seq S i \<noteq> None \<and> sending_seq S j \<noteq> None \<longrightarrow> i = j))"

text \<open>
  Examples.  \<open>fresh_system\<close>: a new client and calls that will each send the initial
  request with an empty document.  \<open>connected_client\<close>: a client after \<open>connect\<close> and
  \<open>start_recognition\<close>, with the default configuration (16 kHz, mono, 16 bits) and an
  error callback that raises.
\<close>

definition fresh_system :: stt_system where
  "fresh_system = \<lparr>client = stt_init, calls = (\<lambda>i. NotStarted (FullRequestCall [])), wire = []\<rparr>"

definition connected_client :: stt_client where
  "connected_client =
     stt_init\<lparr>stt_is_connected := True, stt_websocket := Some OPEN, seq := 2,
              current_session :=
                Some \<lparr>config = \<lparr>sample_rate = 16000, channels = 1, bits = 16\<rparr>,
                      total_audio_bytes = 0\<rparr>,
              on_error := Some (Raises OtherError)\<rparr>"

section \<open>Streaming pipeline (backend\_server.py)\<close>

text \<open>
  \<open>stream_pipeline\<close> is a generator: it yields events, awaits the TTS and avatar
  clients, and polls the cancel event of its session.  Another request can set that event
  only while the pipeline is suspended, that is at a \<open>yield\<close> or an \<open>await\<close>; the state
  counts these suspensions in \<open>tick\<close>, and the environment says at which count the
  event gets set (\<open>cancel_at\<close>).  The environment also gives the answers of the LLM, what
  the TTS service produces for a text at each attempt, whether the TTS connection can be
  had, whether the avatar client has a socket and the request a live id, and whether a
  drive call succeeds.
\<close>

datatype pipeline_event =
    EvStart | EvCancelled | EvTextChunk pystr pystr | EvSentenceComplete pystr
  | EvAudioChunk pystr nat | EvSentenceProcessed pystr | EvTtsError pystr
  | EvFinalSentence pystr | EvFinalAudioChunk pystr nat | EvFinalTtsError pystr
  | EvComplete pystr | EvError

datatype tts_attempt = TtsChunks "byte list list" | TtsFailure

record pipeline_env =
  cancel_at :: "nat option"
  tts_synthesize :: "pystr \<Rightarrow> nat \<Rightarrow> tts_attempt"
  tts_connection_ok :: "nat \<Rightarrow> bool"
  avatar_available :: bool
  drive_ok :: "nat \<Rightarrow> bool"

record pipeline_state =
  tick :: nat
  emitted :: "pipeline_event list"
  tts_calls :: "pystr list"
  avatar_drives :: "byte list list"
  text_buffer :: pystr
  sentence_buffer :: pystr

text \<open>What ends a part of the pipeline early: a cancellation or another exception.\<close>

datatype pipeline_exn = PCancelled | PException

definition pipeline_start :: pipeline_state where
  "pipeline_start =
     \<lparr>tick = 0, emitted = [], tts_calls = [], avatar_drives = [], text_buffer = [],
      sentence_buffer = []\<rparr>"

definition emit :: "pipeline_event \<Rightarrow> pipeline_state \<Rightarrow> pipeline_state" where
  "emit ev st = st\<lparr>emitted := emitted st @ [ev], tick := Suc (tick st)\<rparr>"

definition await :: "pipeline_state \<Rightarrow> pipeline_state" where
  "await st = st\<lparr>tick := Suc (tick st)\<rparr>"

text \<open>\<open>cancel_event.is_set()\<close>.\<close>

definition is_set :: "pipeline_env \<Rightarrow> pipeline_state \<Rightarrow> bool" where
  "is_set env st = (case cancel_at env of None \<Rightarrow> False | Some n \<Rightarrow> n \<le> tick st)"

text \<open>
  The sentence marks \<open>["\<dots>", ".", "!", "?"]\<close> of the source, as code points (the
  ideographic full stop, the fullwidth exclamation and question marks, and the three ASCII
  marks), and \<open>str.strip()\<close>.
\<close>

definition sentence_marks :: "nat list" where
  "sentence_marks = [0x3002, 0xFF01, 0xFF1F, 0x2E, 0x21, 0x3F]"

definition has_sentence_mark :: "pystr \<Rightarrow> bool" where
  "has_sentence_mark buf = list_ex (\<lambda>punct. punct \<in> set buf) sentence_marks"

definition py_isspace :: "nat \<Rightarrow> bool" where
  "py_isspace c =
     ((9 \<le> c \<and> c \<le> 13) \<or> (28 \<le> c \<and> c \<le> 32) \<or> c = 0x85 \<or> c = 0xA0 \<or> c = 0x1680
      \<or> (0x2000 \<le> c \<and> c \<le> 0x200A) \<or> c = 0x2028 \<or> c = 0x2029 \<or> c = 0x202F
      \<or> c = 0x205F \<or> c = 0x3000)"

definition strip :: "pystr \<Rightarrow> pystr" where
  "strip s = rev (dropWhile py_isspace (rev (dropWhile py_isspace s)))"

text \<open>
  \<open>safe_tts_synthesize\<close>.  The audio chunks arrive one by one; the cancel event is
  polled after each, and a set event raises \<open>CancelledError\<close>, which no
  \<open>except Exception\<close> catches.
\<close>

fun receive_chunks ::
  "pipeline_env \<Rightarrow> byte list list \<Rightarrow> byte list list \<Rightarrow> pipeline_state
     \<Rightarrow> (pipeline_exn + byte list list) \<times> pipeline_state" where
  "receive_chunks env [] audio_chunks st = (Inr audio_chunks, await st)"
| "receive_chunks env (audio_chunk # rest) audio_chunks st =
     (let st1 = await st
      in if is_set env st1 then (Inl PCancelled, st1)
         else receive_chunks env rest (audio_chunks @ [audio_chunk]) st1)"

function safe_tts_synthesize ::
  "pipeline_env \<Rightarrow> pystr \<Rightarrow> nat \<Rightarrow> pipeline_state
     \<Rightarrow> (pipeline_exn + byte list list) \<times> pipeline_state" where
  "safe_tts_synthesize env text retry_count st =
     (if retry_count < 3 then
        (if is_set env st then (Inl PCancelled, st)
         else
           (let st1 = await st;
                attempt =
                  (if \<not> tts_connection_ok env (tick st) then (Inl PException, st1)
                   else
                     (let st2 = await st1
                      in case tts_synthesize env text retry_count of
                           TtsFailure \<Rightarrow> (Inl PException, await st2)
                         | TtsChunks cs \<Rightarrow>
                             (case receive_chunks env cs [] st2 of
                                (Inl e, st3) \<Rightarrow> (Inl e, st3)
                              | (Inr audio_chunks, st3) \<Rightarrow>
                                  if length audio_chunks = 0 then (Inl PException, st3)
                                  else (Inr audio_chunks, st3))))
            in case attempt of
                 (Inr audio_chunks, st3) \<Rightarrow> (Inr audio_chunks, st3)
               | (Inl PCancelled, st3) \<Rightarrow> (Inl PCancelled, st3)
               | (Inl PException, st3) \<Rightarrow>
                   if Suc retry_count \<ge> 3 then (Inl PException, st3)
                   else safe_tts_synthesize env text (Suc retry_count) (await st3)))
      else (Inr [], st))"
  by pat_completeness auto
termination
  by (relation "measure (\<lambda>(env, text, retry_count, st). 3 - retry_count)") auto

declare safe_tts_synthesize.simps [simp del]

text \<open>
  The loop over the audio chunks of a sentence: the cancel event is polled before each
  chunk; when it is set the loop yields \<open>cancelled\<close> and breaks.
\<close>

fun deliver_chunks ::
  "pipeline_env \<Rightarrow> pystr \<Rightarrow> byte list list \<Rightarrow> pipeline_state
     \<Rightarrow> (pipeline_exn + unit) \<times> pipeline_state" where
  "deliver_chunks env sentence [] st = (Inr (), st)"
| "deliver_chunks env sentence (audio_chunk # rest) st =
     (if is_set env st then (Inr (), emit EvCancelled st)
      else if avatar_available env then
        (if drive_ok env (tick st) then
           deliver_chunks env sentence rest
             (emit (EvAudioChunk sentence (length audio_chunk))
                (await (st\<lparr>avatar_drives := avatar_drives st @ [audio_chunk]\<rparr>)))
         else (Inl PException, await st))
      else deliver_chunks env sentence rest (emit (EvAudioChunk sentence (length audio_chunk)) st))"

text \<open>
  The body run for a completed sentence.  An ordinary exception of the TTS or avatar
  calls is reported as \<open>tts_error\<close>; a cancellation passes through.
\<close>

definition process_sentence ::
  "pipeline_env \<Rightarrow> pipeline_state \<Rightarrow> (pipeline_exn + unit) \<times> pipeline_state" where
  "process_sentence env st0 =
     (let sentence = strip (sentence_buffer st0);
          st = emit (EvSentenceComplete sentence) st0;
          (r, st3) =
            (if \<not> tts_connection_ok env (tick st) then (Inl PException, st)
             else
               (case safe_tts_synthesize env sentence 0
                       (st\<lparr>tts_calls := tts_calls st @ [sentence]\<rparr>) of
                  (Inl e, st1) \<Rightarrow> (Inl e, st1)
                | (Inr sentence_audio_chunks, st1) \<Rightarrow>
                    (case deliver_chunks env sentence sentence_audio_chunks st1 of
                       (Inl e, st2) \<Rightarrow> (Inl e, st2)
                     | (Inr u, st2) \<Rightarrow> (Inr (), emit (EvSentenceProcessed sentence) st2))))
      in case r of
           Inl PCancelled \<Rightarrow> (Inl PCancelled, st3)
         | Inl PException \<Rightarrow> (Inr (), (emit (EvTtsError sentence) st3)\<lparr>sentence_buffer := []\<rparr>)
         | Inr u \<Rightarrow> (Inr (), st3\<lparr>sentence_buffer := []\<rparr>))"

text \<open>
  The loop over the LLM answers.  An answer is the text under its \<open>answer\<close> key, or
  \<open>None\<close> when it has no such key.  The cancel event is polled before each answer; when
  it is set the loop yields \<open>cancelled\<close> and breaks.
\<close>

fun llm_loop ::
  "pipeline_env \<Rightarrow> pystr option list \<Rightarrow> pipeline_state
     \<Rightarrow> (pipeline_exn + unit) \<times> pipeline_state" where
  "llm_loop env [] st = (Inr (), st)"
| "llm_loop env (llm_response # rest) st =
     (if is_set env st then (Inr (), emit EvCancelled st)
      else
        (case llm_response of
           None \<Rightarrow> llm_loop env rest st
         | Some text_chunk \<Rightarrow>
             (let st1 = st\<lparr>text_buffer := text_buffer st @ text_chunk,
                          sentence_buffer := sentence_buffer st @ text_chunk\<rparr>;
                  st2 = emit (EvTextChunk text_chunk (text_buffer st1)) st1
              in if has_sentence_mark (sentence_buffer st2) then
                   (case process_sentence env st2 of
                      (Inl e, st3) \<Rightarrow> (Inl e, st3)
                    | (Inr u, st3) \<Rightarrow> llm_loop env rest st3)
                 else llm_loop env rest st2)))"

text \<open>The text left in the buffer when the answers end; its loop does not poll.\<close>

fun deliver_final ::
  "pipeline_env \<Rightarrow> pystr \<Rightarrow> byte list list \<Rightarrow> pipeline_state
     \<Rightarrow> (pipeline_exn + unit) \<times> pipeline_state" where
  "deliver_final env sentence [] st = (Inr (), st)"
| "deliver_final env sentence (audio_chunk # rest) st =
     (if avatar_available env then
        (if drive_ok env (tick st) then
           deliver_final env sentence rest
             (emit (EvFinalAudioChunk sentence (length audio_chunk))
                (await (st\<lparr>avatar_drives := avatar_drives st @ [audio_chunk]\<rparr>)))
         else (Inl PException, await st))
      else deliver_final env sentence rest
             (emit (EvFinalAudioChunk sentence (length audio_chunk)) st))"

definition process_remaining ::
  "pipeline_env \<Rightarrow> pipeline_state \<Rightarrow> (pipeline_exn + unit) \<times> pipeline_state" where
  "process_remaining env st0 =
     (if strip (sentence_buffer st0) \<noteq> [] \<and> \<not> is_set env st0 then
        (let sentence = strip (sentence_buffer st0);
             st = emit (EvFinalSentence sentence) st0;
             (r, st3) =
               (if \<not> tts_connection_ok env (tick st) then (Inl PException, st)
                else
                  (case safe_tts_synthesize env sentence 0
                          (st\<lparr>tts_calls := tts_calls st @ [sentence]\<rparr>) of
                     (Inl e, st1) \<Rightarrow> (Inl e, st1)
                   | (Inr final_audio_chunks, st1) \<Rightarrow>
                       deliver_final env sentence final_audio_chunks st1))
         in case r of
              Inl PCancelled \<Rightarrow> (Inl PCancelled, st3)
            | Inl PException \<Rightarrow> (Inr (), emit (EvFinalTtsError sentence) st3)
            | Inr u \<Rightarrow> (Inr (), st3))
      else (Inr (), st0))"

text \<open>
  \<open>stream_pipeline\<close> up to its \<open>finally\<close> block.  Errors of
  \<open>finish_streaming_audio\<close> are logged only.
\<close>

definition pipeline_body ::
  "pipeline_env \<Rightarrow> pystr option list \<Rightarrow> (pipeline_exn + unit) \<times> pipeline_state" where
  "pipeline_body env llm_responses =
     (let st0 = emit EvStart pipeline_start
      in if is_set env st0 then (Inr (), emit EvCancelled st0)
         else
           (case llm_loop env llm_responses st0 of
              (Inl e, st1) \<Rightarrow> (Inl e, st1)
            | (Inr u, st1) \<Rightarrow>
                (case process_remaining env st1 of
                   (Inl e, st2) \<Rightarrow> (Inl e, st2)
                 | (Inr u, st2) \<Rightarrow>
                     (let st3 = (if avatar_available env \<and> \<not> is_set env st2 then await st2
                                 else st2)
                      in (Inr (), emit (EvComplete (text_buffer st3)) st3)))))"

text \<open>
  The whole generator: the handlers of the body, and the \<open>finally\<close> block that removes
  the session from the registry.  The result is the final state and the registry.
\<close>

definition stream_pipeline ::
  "pipeline_env \<Rightarrow> pystr option list \<Rightarrow> registry \<Rightarrow> string \<Rightarrow> pipeline_state \<times> registry" where
  "stream_pipeline env llm_responses reg session_id =
     (let st = (case pipeline_body env llm_responses of
                  (Inr u, st1) \<Rightarrow> st1
                | (Inl PCancelled, st1) \<Rightarrow> emit EvCancelled st1
                | (Inl PException, st1) \<Rightarrow> emit EvError st1)
      in (st, cleanup_stream_session reg session_id))"

text \<open>
  A query answered by the LLM with the single chunk \<open>Hi.\<close>, for which the TTS service
  produces two audio chunks; every call succeeds.  The cancel event gets set at the
  suspension with the given number.  The session \<open>s1\<close> is registered under \<open>room\<close>.
\<close>

definition two_chunk_env :: "nat \<Rightarrow> pipeline_env" where
  "two_chunk_env n =
     \<lparr>cancel_at = Some n, tts_synthesize = (\<lambda>text retry_count. TtsChunks [[1, 2], [3, 4]]),
      tts_connection_ok = (\<lambda>t. True), avatar_available = True, drive_ok = (\<lambda>t. True)\<rparr>"

definition hi_answer :: "pystr option list" where
  "hi_answer = [Some [0x48, 0x69, 0x2E]]"

definition registered_s1 :: registry where
  "registered_s1 = snd (register_stream_session empty_registry ''s1'' (Some ''room''))"

section \<open>Results\<close>

subsection \<open>Exceptions\<close>

lemma ebind_Inr [simp]: "ebind (Inr x) f = f x"
  by (simp add: ebind_def)

lemma ebind_Inl [simp]: "ebind (Inl e) f = Inl e"
  by (simp add: ebind_def)

subsection \<open>Big-endian integers\<close>

lemma uint_byte: "uint (word_of_int x :: byte) = x mod 256"
  by (simp add: uint_word_of_int)

lemma be_unsigned4:
  "be_unsigned [a, b, c, d] = ((uint a * 256 + uint b) * 256 + uint c) * 256 + uint d"
  by (simp add: be_unsigned_def)

lemma be_digits:
  fixes u :: int
  assumes "0 \<le> u" "u < 4294967296"
  shows "((u div 16777216 mod 256 * 256 + u div 65536 mod 256) * 256 + u div 256 mod 256) * 256
           + u mod 256 = u"
proof -
  define a where "a = u div 256"
  define b where "b = a div 256"
  define c where "c = b div 256"
  have b: "u div 65536 = b"
    unfolding a_def b_def by (simp add: zdiv_zmult2_eq)
  have c: "u div 16777216 = c"
    unfolding a_def b_def c_def by (simp add: zdiv_zmult2_eq)
  have a: "u div 256 = a" by (simp add: a_def)
  have "c < 256" "0 \<le> c" using assms unfolding a_def b_def c_def by auto
  then have cm: "c mod 256 = c" by simp
  have "c * 256 + b mod 256 = b" unfolding c_def by simp
  moreover have "b * 256 + a mod 256 = a" unfolding b_def by simp
  moreover have "a * 256 + u mod 256 = u" unfolding a_def by simp
  ultimately show ?thesis unfolding a b c cm by simp
qed

lemma be32_alt:
  "be32 n = [word_of_int (n mod 4294967296 div 16777216), word_of_int (n mod 4294967296 div 65536),
             word_of_int (n mod 4294967296 div 256), word_of_int (n mod 4294967296)]"
  by (simp add: be32_def Let_def)

lemma be_unsigned_be32: "be_unsigned (be32 n) = n mod 4294967296"
proof -
  define u where "u = n mod 4294967296"
  have u: "0 \<le> u" "u < 4294967296" by (simp_all add: u_def)
  have "be_unsigned (be32 n) =
          ((u div 16777216 mod 256 * 256 + u div 65536 mod 256) * 256 + u div 256 mod 256) * 256
           + u mod 256"
    unfolding be32_alt be_unsigned4 uint_byte u_def [symmetric] ..
  also have "\<dots> = u" by (rule be_digits [OF u])
  finally show ?thesis by (simp only: u_def)
qed

lemma length_be32: "length (be32 n) = 4"
  by (simp add: be32_def Let_def)

lemma from_bytes_signed_be32:
  assumes "- 2147483648 \<le> n" "n < 2147483648"
  shows "from_bytes_signed (be32 n) = n"
proof (cases "0 \<le> n")
  case True
  then have "n mod 4294967296 = n" using assms by simp
  then show ?thesis using assms True
    by (simp add: from_bytes_signed_def be_unsigned_be32 length_be32 Let_def)
next
  case False
  then have "(n + 4294967296) mod 4294967296 = n + 4294967296" using assms
    by (intro mod_pos_pos_trivial) simp_all
  then have "n mod 4294967296 = n + 4294967296" by simp
  then show ?thesis using assms False
    by (simp add: from_bytes_signed_def be_unsigned_be32 length_be32 Let_def)
qed

subsection \<open>UTF-8\<close>

lemma unat_byte: "n < 256 \<Longrightarrow> unat (of_nat n :: byte) = n"
  by (simp add: unsigned_of_nat take_bit_nat_eq_self)

lemma decode_1:
  assumes "unat b0 = c" "c < 0x80"
  shows "utf8_decode (b0 # rest) = ebind (utf8_decode rest) (\<lambda>cs. Inr (c # cs))"
  using assms by (simp add: Let_def)

lemma decode_2:
  assumes "unat b0 = 0xC0 + h" "unat b1 = 0x80 + l" "2 \<le> h" "h < 32" "l < 64"
  shows "utf8_decode (b0 # b1 # rest) = ebind (utf8_decode rest) (\<lambda>cs. Inr ((h * 64 + l) # cs))"
  using assms by (simp add: Let_def is_cont_def cont_bits_def)

lemma decode_3:
  assumes "unat b0 = 0xE0 + h" "unat b1 = 0x80 + m" "unat b2 = 0x80 + l"
    and "h < 16" "m < 64" "l < 64"
    and "0x800 \<le> h * 4096 + m * 64 + l"
    and "\<not> (0xD800 \<le> h * 4096 + m * 64 + l \<and> h * 4096 + m * 64 + l \<le> 0xDFFF)"
  shows "utf8_decode (b0 # b1 # b2 # rest)
           = ebind (utf8_decode rest) (\<lambda>cs. Inr ((h * 4096 + m * 64 + l) # cs))"
  using assms by (simp add: Let_def is_cont_def cont_bits_def)

lemma decode_4:
  assumes "unat b0 = 0xF0 + h" "unat b1 = 0x80 + m" "unat b2 = 0x80 + k" "unat b3 = 0x80 + l"
    and "h < 5" "m < 64" "k < 64" "l < 64"
    and "0x10000 \<le> h * 262144 + m * 4096 + k * 64 + l"
    and "h * 262144 + m * 4096 + k * 64 + l < 0x110000"
  shows "utf8_decode (b0 # b1 # b2 # b3 # rest)
           = ebind (utf8_decode rest) (\<lambda>cs. Inr ((h * 262144 + m * 4096 + k * 64 + l) # cs))"
  using assms by (simp add: Let_def is_cont_def cont_bits_def)

lemma split_64: "(c :: nat) div 64 * 64 + c mod 64 = c"
  by simp

lemma mul_aux: "(x :: nat) * 4096 + y * 64 + z = (x * 64 + y) * 64 + z"
  by simp

lemma mul_aux2: "(x :: nat) * 262144 + y * 4096 + w * 64 + z = (x * 4096 + y * 64 + w) * 64 + z"
  by simp

lemma split_4096: "(c :: nat) div 4096 * 4096 + c div 64 mod 64 * 64 + c mod 64 = c"
proof -
  have e: "c div 4096 = c div 64 div 64" by (simp add: div_mult2_eq)
  show ?thesis unfolding e by (simp only: mul_aux split_64)
qed

lemma split_262144:
  "(c :: nat) div 262144 * 262144 + c div 4096 mod 64 * 4096 + c div 64 mod 64 * 64 + c mod 64 = c"
proof -
  have e: "c div 262144 = c div 64 div 4096" "c div 4096 = c div 64 div 64"
    by (simp_all add: div_mult2_eq)
  show ?thesis unfolding e by (simp only: mul_aux2 split_4096 split_64)
qed

lemma div_bound: "(c :: nat) < k * n \<Longrightarrow> c div n < k"
  by (simp add: less_mult_imp_div_less)

lemma decode_encode_cp:
  assumes "encode_cp c = Inr bs"
  shows "utf8_decode (bs @ rest) = ebind (utf8_decode rest) (\<lambda>cs. Inr (c # cs))"
proof -
  consider "c < 0x80" | "0x80 \<le> c" "c < 0x800"
    | "0x800 \<le> c" "c < 0x10000" | "0x10000 \<le> c" "c < 0x110000" | "0x110000 \<le> c"
    by linarith
  then show ?thesis
  proof cases
    case 1
    with assms have bs: "bs = [of_nat c]" by (simp add: encode_cp_def)
    have "unat (of_nat c :: byte) = c" using 1 by (intro unat_byte) simp
    from decode_1 [OF this 1] show ?thesis unfolding bs by simp
  next
    case 2
    with assms have bs: "bs = [of_nat (0xC0 + c div 64), of_nat (0x80 + c mod 64)]"
      by (simp add: encode_cp_def)
    have h: "c div 64 < 32" using 2 by (intro div_bound) simp
    have h2: "2 \<le> c div 64"
    proof (rule ccontr)
      assume "\<not> 2 \<le> c div 64"
      then have "c div 64 * 64 + c mod 64 < 128" by simp
      with 2 show False by simp
    qed
    have l: "c mod 64 < 64" by simp
    have u0: "unat (of_nat (0xC0 + c div 64) :: byte) = 0xC0 + c div 64"
      using h by (intro unat_byte) simp
    have u1: "unat (of_nat (0x80 + c mod 64) :: byte) = 0x80 + c mod 64"
      using l by (intro unat_byte) simp
    from decode_2 [OF u0 u1 h2 h l, of rest] show ?thesis
      unfolding bs split_64 by simp
  next
    case 3
    with assms have ns: "\<not> (0xD800 \<le> c \<and> c \<le> 0xDFFF)"
      by (auto simp add: encode_cp_def split: if_splits)
    with 3 assms have bs: "bs = [of_nat (0xE0 + c div 4096), of_nat (0x80 + c div 64 mod 64),
                   of_nat (0x80 + c mod 64)]"
      by (simp add: encode_cp_def)
    have h: "c div 4096 < 16" using 3 by (intro div_bound) simp
    have m: "c div 64 mod 64 < 64" and l: "c mod 64 < 64" by simp_all
    have u0: "unat (of_nat (0xE0 + c div 4096) :: byte) = 0xE0 + c div 4096"
      using h by (intro unat_byte) simp
    have u1: "unat (of_nat (0x80 + c div 64 mod 64) :: byte) = 0x80 + c div 64 mod 64"
      using m by (intro unat_byte) simp
    have u2: "unat (of_nat (0x80 + c mod 64) :: byte) = 0x80 + c mod 64"
      using l by (intro unat_byte) simp
    have lo: "0x800 \<le> c div 4096 * 4096 + c div 64 mod 64 * 64 + c mod 64"
      unfolding split_4096 using 3 by simp
    have nsu: "\<not> (0xD800 \<le> c div 4096 * 4096 + c div 64 mod 64 * 64 + c mod 64
                \<and> c div 4096 * 4096 + c div 64 mod 64 * 64 + c mod 64 \<le> 0xDFFF)"
      unfolding split_4096 using ns .
    from decode_3 [OF u0 u1 u2 h m l lo nsu, of rest] show ?thesis
      unfolding bs split_4096 by simp
  next
    case 4
    with assms have bs: "bs = [of_nat (0xF0 + c div 262144), of_nat (0x80 + c div 4096 mod 64),
             of_nat (0x80 + c div 64 mod 64), of_nat (0x80 + c mod 64)]"
      by (simp add: encode_cp_def)
    have h: "c div 262144 < 5" using 4 by (intro div_bound) simp
    have m: "c div 4096 mod 64 < 64" and k: "c div 64 mod 64 < 64" and l: "c mod 64 < 64"
      by simp_all
    have u0: "unat (of_nat (0xF0 + c div 262144) :: byte) = 0xF0 + c div 262144"
      using h by (intro unat_byte) simp
    have u1: "unat (of_nat (0x80 + c div 4096 mod 64) :: byte) = 0x80 + c div 4096 mod 64"
      using m by (intro unat_byte) simp
    have u2: "unat (of_nat (0x80 + c div 64 mod 64) :: byte) = 0x80 + c div 64 mod 64"
      using k by (intro unat_byte) simp
    have u3: "unat (of_nat (0x80 + c mod 64) :: byte) = 0x80 + c mod 64"
      using l by (intro unat_byte) simp
    have lo: "0x10000 \<le> c div 262144 * 262144 + c div 4096 mod 64 * 4096 + c div 64 mod 64 * 64
                 + c mod 64"
      unfolding split_262144 using 4 by simp
    have hi: "c div 262144 * 262144 + c div 4096 mod 64 * 4096 + c div 64 mod 64 * 64
                 + c mod 64 < 0x110000"
      unfolding split_262144 using 4 by simp
    from decode_4 [OF u0 u1 u2 u3 h m k l lo hi, of rest] show ?thesis
      unfolding bs split_262144 by simp
  next
    case 5
    with assms show ?thesis by (simp add: encode_cp_def)
  qed
qed

lemma utf8_roundtrip: "str_encode s = Inr bs \<Longrightarrow> utf8_decode bs = Inr s"
proof (induction s arbitrary: bs)
  case Nil
  then show ?case by simp
next
  case (Cons c cs)
  from Cons.prems obtain b1 where b1: "encode_cp c = Inr b1"
    by (cases "encode_cp c") (simp_all)
  with Cons.prems obtain b2 where b2: "str_encode cs = Inr b2"
    by (cases "str_encode cs") (simp_all)
  with b1 Cons.prems have bs: "bs = b1 @ b2" by simp
  from Cons.IH [OF b2] have "utf8_decode b2 = Inr cs" .
  then show ?case unfolding bs decode_encode_cp [OF b1] by simp
qed

subsection \<open>STT request builder\<close>

lemma audio_header_bytes:
  "header_as_bytes (Header CLIENT_AUDIO_ONLY_REQUEST
       (if is_last then NEG_WITH_SEQUENCE else POS_SEQUENCE) NO_SERIALIZATION COMPRESSION_GZIP)
     = Inr [0x11, if is_last then 0x23 else 0x21, 0x01, 0]"
  by (simp add: header_as_bytes_def Header_def to_byte_def ebind_def PROTOCOL_VERSION_def
      DEFAULT_HEADER_SIZE_def CLIENT_AUDIO_ONLY_REQUEST_def NEG_WITH_SEQUENCE_def
      POS_SEQUENCE_def NO_SERIALIZATION_def COMPRESSION_GZIP_def)

lemma sequence_field_append:
  "sequence_field ([b0, b1, b2, b3] @ be32 v @ rest) = from_bytes_signed (be32 v)"
  by (simp add: sequence_field_def py_slice_def slice_bound_def Let_def length_be32)

lemma pack_i_min_negated: "pack_i (- (- 2147483648)) = Inl StructError"
  by (simp add: pack_i_def)

text \<open>
  C2.  Sequence sign law: whenever the value to be written fits the signed 32-bit field
  (\<open>struct.pack('>i', ...)\<close> raises otherwise) and the compressed segment fits its
  unsigned 32-bit length prefix, \<open>new_audio_only_request\<close> returns a request whose
  sequence field is \<open>- sq\<close> when \<open>is_last\<close> holds and \<open>sq\<close> otherwise (\<open>sq\<close>
  being the sequence number supplied), with the
  matching flag nibble.
\<close>

theorem sequence_sign_law:
  assumes "- (2 ^ 31) \<le> (if is_last then - sq else sq)"
      and "(if is_last then - sq else sq) < 2 ^ 31"
      and "length (gz segment) < 2 ^ 32"
  shows "\<exists>req. new_audio_only_request gz sq segment is_last = Inr req \<and>
           sequence_field req = (if is_last then - sq else sq) \<and>
           flags_field req = (if is_last then NEG_WITH_SEQUENCE else POS_SEQUENCE)"
proof -
  define v where "v = (if is_last then - sq else sq)"
  have v: "- 2147483648 \<le> v" "v < 2147483648" using assms(1,2) by (simp_all add: v_def)
  have sb: "pack_i v = Inr (be32 v)" using v by (simp add: pack_i_def)
  have lb: "pack_I (int (length (gz segment))) = Inr (be32 (int (length (gz segment))))"
    using assms(3) by (simp add: pack_I_def)
  define req where "req = [0x11, if is_last then 0x23 else 0x21, 0x01, 0] @ be32 v
               @ be32 (int (length (gz segment))) @ gz segment"
  have r: "new_audio_only_request gz sq segment is_last = Inr req"
    unfolding new_audio_only_request_def Let_def audio_header_bytes v_def [symmetric] sb lb req_def
    by (simp add: ebind_def)
  have sf: "sequence_field req = v"
    unfolding req_def sequence_field_append by (rule from_bytes_signed_be32 [OF v])
  have ff: "flags_field req = (if is_last then NEG_WITH_SEQUENCE else POS_SEQUENCE)"
    by (simp add: req_def flags_field_def NEG_WITH_SEQUENCE_def POS_SEQUENCE_def)
  from r sf ff show ?thesis unfolding v_def by blast
qed

theorem sequence_sign_law_witness:
  "(\<exists>req. new_audio_only_request (\<lambda>bs. bs) 7 [1, 2] True = Inr req \<and>
      sequence_field req = - 7 \<and> flags_field req = 3) \<and>
   (\<exists>req. new_audio_only_request (\<lambda>bs. bs) 7 [1, 2] False = Inr req \<and>
      sequence_field req = 7 \<and> flags_field req = 1)"
  using sequence_sign_law [of True 7 "\<lambda>bs. bs" "[1, 2]"]
    sequence_sign_law [of False 7 "\<lambda>bs. bs" "[1, 2]"]
  by (simp add: NEG_WITH_SEQUENCE_def POS_SEQUENCE_def)

subsection \<open>TTS wire codec\<close>

lemma py_slice_mid:
  "py_slice (xs @ ys @ zs) (int (length xs)) (int (length xs) + int (length ys)) = ys"
  by (simp add: py_slice_def slice_bound_def Let_def nat_add_distrib)

lemma nibble_cases:
  fixes m :: int
  assumes "0 \<le> m" "m < 16"
  shows "m = 0 \<or> m = 1 \<or> m = 2 \<or> m = 3 \<or> m = 4 \<or> m = 5 \<or> m = 6 \<or> m = 7 \<or> m = 8 \<or> m = 9
         \<or> m = 10 \<or> m = 11 \<or> m = 12 \<or> m = 13 \<or> m = 14 \<or> m = 15"
  using assms by arith

lemma type_flags_byte:
  fixes mt :: int
  assumes "0 \<le> mt" "mt < 16"
  shows "\<exists>b. to_byte (push_bit 4 mt OR 4) = Inr b \<and> drop_bit 4 (uint b) AND 15 = mt
             \<and> uint b AND 0x0F = 4"
  using nibble_cases [OF assms]
  by (elim disjE) (simp_all add: to_byte_def)

lemma nibbles_byte:
  fixes sm ct :: int
  assumes "0 \<le> sm" "sm < 16" "0 \<le> ct" "ct < 16"
  shows "\<exists>b. to_byte (push_bit 4 sm OR ct) = Inr b"
proof -
  have p: "0 \<le> push_bit 4 sm" "push_bit 4 sm < 2 ^ 8"
    using assms by (simp_all add: push_bit_eq_mult)
  have "ct < 2 ^ 8" using assms by simp
  with p assms have "push_bit 4 sm OR ct < 2 ^ 8" by (intro OR_upper) simp_all
  moreover have "0 \<le> push_bit 4 sm OR ct" using p assms by simp
  ultimately show ?thesis by (simp add: to_byte_def)
qed

lemma to_bytes4_ok: "- 2147483648 \<le> n \<Longrightarrow> n < 2147483648 \<Longrightarrow> to_bytes4 n = Inr (be32 n)"
  by (simp add: to_bytes4_def)

lemma parse_event_frame:
  assumes b1: "drop_bit 4 (uint b1) AND 15 = mt" "uint b1 AND 0x0F = 4"
    and ev: "- 2147483648 \<le> ev" "ev < 2147483648" "ev \<notin> dispatched_events"
    and sid: "utf8_decode sb = Inr sid" "int (length sb) < 2147483648"
    and pl: "int (length pl) < 2147483648"
  shows "\<exists>r. parse_response ([b0, b1, b2, b3] @ be32 ev @ be32 (int (length sb)) @ sb
                 @ be32 (int (length pl)) @ pl) = Inr r \<and>
           message_type (header r) = mt \<and>
           message_type_specific_flags (header r) = MsgTypeFlagWithEvent \<and>
           event (optional r) = ev \<and> sessionId (optional r) = Some sid \<and>
           payload r = Some pl"
proof -
  define res where "res = [b0, b1, b2, b3] @ be32 ev @ be32 (int (length sb)) @ sb
                 @ be32 (int (length pl)) @ pl"
  have idx: "py_index res 0 = Inr b0" "py_index res 1 = Inr b1"
    "py_index res 2 = Inr b2" "py_index res 3 = Inr b3"
    unfolding res_def by (simp_all add: py_index_def)
  have s1: "py_slice res 4 8 = be32 ev"
    using py_slice_mid [of "[b0, b1, b2, b3]" "be32 ev"
        "be32 (int (length sb)) @ sb @ be32 (int (length pl)) @ pl"]
    unfolding res_def by (simp add: length_be32)
  have s2: "py_slice res 8 12 = be32 (int (length sb))"
    using py_slice_mid [of "[b0, b1, b2, b3] @ be32 ev" "be32 (int (length sb))"
        "sb @ be32 (int (length pl)) @ pl"]
    unfolding res_def by (simp add: length_be32)
  have s3: "py_slice res 12 (12 + int (length sb)) = sb"
    using py_slice_mid [of "[b0, b1, b2, b3] @ be32 ev @ be32 (int (length sb))" sb
        "be32 (int (length pl)) @ pl"]
    unfolding res_def by (simp add: length_be32)
  have s4: "py_slice res (12 + int (length sb)) (16 + int (length sb))
              = be32 (int (length pl))"
    using py_slice_mid [of "[b0, b1, b2, b3] @ be32 ev @ be32 (int (length sb)) @ sb"
        "be32 (int (length pl))" pl]
    unfolding res_def by (simp add: length_be32 add.commute add.left_commute)
  have s5: "py_slice res (16 + int (length sb)) (16 + int (length sb) + int (length pl)) = pl"
    using py_slice_mid [of "[b0, b1, b2, b3] @ be32 ev @ be32 (int (length sb)) @ sb
         @ be32 (int (length pl))" pl "[]"]
    unfolding res_def by (simp add: length_be32 add.commute add.left_commute)
  have f1: "from_bytes_signed (be32 ev) = ev"
    by (rule from_bytes_signed_be32 [OF ev(1,2)])
  have f2: "from_bytes_signed (be32 (int (length sb))) = int (length sb)"
    using sid(2) by (intro from_bytes_signed_be32) simp_all
  have f3: "from_bytes_signed (be32 (int (length pl))) = int (length pl)"
    using pl by (intro from_bytes_signed_be32) simp_all
  have c: "read_res_content res 8 = Inr (sid, 12 + int (length sb))"
    by (simp add: read_res_content_def Let_def s2 f2 s3 sid(1))
  have p: "read_res_payload res (12 + int (length sb))
             = (pl, 16 + int (length sb) + int (length pl))"
    by (simp add: read_res_payload_def Let_def s4 f3 s5)
  have evs: "ev \<noteq> EVENT_NONE" "ev \<noteq> EVENT_ConnectionStarted" "ev \<noteq> EVENT_ConnectionFailed"
    "ev \<noteq> EVENT_SessionStarted" "ev \<noteq> EVENT_SessionFailed" "ev \<noteq> EVENT_SessionFinished"
    using ev(3) by (auto simp add: dispatched_events_def)
  have "parse_response res = Inr
          \<lparr>header = (Header 0 0 NO_SERIALIZATION COMPRESSION_NO)
                  \<lparr>protocol_version := drop_bit 4 (uint b0) AND 15,
                   header_size := uint b0 AND 0x0F,
                   message_type := mt,
                   message_type_specific_flags := 4\<rparr>,
           serialization_method = drop_bit 15 (uint b2),
           message_compression = uint b2 AND 0x0F,
           reserved = uint b3,
           optional = (Optional EVENT_NONE None None)\<lparr>event := ev, sessionId := Some sid\<rparr>,
           payload = Some pl\<rparr>"
    unfolding parse_response_def idx Let_def ebind_Inr
    by (simp add: b1 MsgTypeFlagWithEvent_def AUDIO_ONLY_RESPONSE_def s1 f1 evs c p)
  then show ?thesis unfolding res_def by (simp add: MsgTypeFlagWithEvent_def)
qed

text \<open>
  C1.  Round trip of the TTS codec, as far as it holds.  \<open>_parse_response\<close> reads the
  optional fields that the event selects, not those that the client wrote, so decoding
  gives back what was encoded only for the frames whose layout both sides agree on: flags
  exactly \<open>MsgTypeFlagWithEvent\<close>, an event outside \<open>dispatched_events\<close>, a session
  id, no sequence number and a payload.  For every such frame with a message type other
  than \<open>ERROR_INFORMATION\<close>, whose fields fit their wire widths, decoding the encoded
  bytes returns the same message type, flags, event, session id and payload.
\<close>

theorem tts_event_frame_roundtrip:
  assumes "0 \<le> mt" "mt < 16" "mt \<noteq> ERROR_INFORMATION"
    and "0 \<le> sm" "sm < 16" "0 \<le> ct" "ct < 16"
    and "- (2 ^ 31) \<le> ev" "ev < 2 ^ 31" "ev \<notin> dispatched_events"
    and "str_encode sid = Inr sb" "length sb < 2 ^ 31" "length pl < 2 ^ 31"
  shows "\<exists>bs. encode_frame (Header mt MsgTypeFlagWithEvent sm ct) (Optional ev (Some sid) None) pl
                 = Inr bs \<and>
              decode_fields bs = Inr (mt, MsgTypeFlagWithEvent, ev, Some sid, Some pl)"
proof -
  from type_flags_byte [OF assms(1,2)] obtain b1 where
    b1: "to_byte (push_bit 4 mt OR 4) = Inr b1" "drop_bit 4 (uint b1) AND 15 = mt"
      "uint b1 AND 0x0F = 4" by blast
  from nibbles_byte [OF assms(4-7)] obtain b2 where
    b2: "to_byte (push_bit 4 sm OR ct) = Inr b2" by blast
  have ev: "- 2147483648 \<le> ev" "ev < 2147483648" using assms(8,9) by simp_all
  have ls: "int (length sb) < 2147483648" using assms(12) by simp
  have lp: "int (length pl) < 2147483648" using assms(13) by simp
  have t0: "to_byte (push_bit 4 PROTOCOL_VERSION OR DEFAULT_HEADER_SIZE) = Inr 0x11"
    and t3: "to_byte 0 = Inr 0"
    by (simp_all add: PROTOCOL_VERSION_def DEFAULT_HEADER_SIZE_def to_byte_def)
  have hb: "header_as_bytes (Header mt MsgTypeFlagWithEvent sm ct) = Inr [0x11, b1, b2, 0]"
    by (simp add: header_as_bytes_def Header_def MsgTypeFlagWithEvent_def b1(1) b2 t0 t3)
  have ne: "ev \<noteq> EVENT_NONE" using assms(10) by (simp add: dispatched_events_def)
  have ob: "optional_as_bytes (Optional ev (Some sid) None)
              = Inr (be32 ev @ be32 (int (length sb)) @ sb)"
    using ne by (simp add: optional_as_bytes_def Optional_def assms(11)
        to_bytes4_ok [OF ev] to_bytes4_ok [OF _ ls])
  define bs where "bs = [0x11, b1, b2, 0] @ be32 ev @ be32 (int (length sb)) @ sb
                 @ be32 (int (length pl)) @ pl"
  have enc: "encode_frame (Header mt MsgTypeFlagWithEvent sm ct) (Optional ev (Some sid) None) pl
               = Inr bs"
    by (simp add: encode_frame_def hb ob send_event_with_protocol_def Let_def
        to_bytes4_ok [OF _ lp] bs_def)
  from parse_event_frame [OF b1(2,3) ev assms(10) utf8_roundtrip [OF assms(11)] ls lp,
      of "0x11" b2 0]
  have "decode_fields bs = Inr (mt, MsgTypeFlagWithEvent, ev, Some sid, Some pl)"
    unfolding bs_def decode_fields_def by auto
  with enc show ?thesis by blast
qed

theorem tts_event_frame_roundtrip_witness:
  "\<exists>bs. encode_frame (Header FULL_CLIENT_REQUEST MsgTypeFlagWithEvent JSON COMPRESSION_NO)
           (Optional EVENT_StartSession (Some [97, 98]) None) [0x7B, 0x7D] = Inr bs \<and>
         decode_fields bs
           = Inr (FULL_CLIENT_REQUEST, MsgTypeFlagWithEvent, EVENT_StartSession, Some [97, 98],
                  Some [0x7B, 0x7D])"
  using tts_event_frame_roundtrip [of FULL_CLIENT_REQUEST JSON COMPRESSION_NO EVENT_StartSession
      "[97, 98]" "[97, 98]" "[0x7B, 0x7D]"]
  by (simp add: FULL_CLIENT_REQUEST_def JSON_def COMPRESSION_NO_def EVENT_StartSession_def
      ERROR_INFORMATION_def dispatched_events_def EVENT_NONE_def EVENT_ConnectionStarted_def
      EVENT_ConnectionFailed_def EVENT_SessionStarted_def EVENT_SessionFailed_def
      EVENT_SessionFinished_def encode_cp_def)

lemma be32_small: "be32 1 = [0, 0, 0, 1]" "be32 2 = [0, 0, 0, 2]"
  by (simp_all add: be32_def Let_def)

lemma from_bytes_small:
  "from_bytes_signed [0, 0, 0, 1] = 1" "from_bytes_signed [0, 0, 0, 2] = 2"
  "from_bytes_signed [] = 0"
  by (simp_all add: from_bytes_signed_def be_unsigned_def Let_def)

lemma start_connection_slices:
  "py_slice [0x11, 0x14, 0, 0, 0, 0, 0, 1, 0, 0, 0, 2, 0x7B, 0x7D :: byte] 4 8 = [0, 0, 0, 1]"
  "py_slice [0x11, 0x14, 0, 0, 0, 0, 0, 1, 0, 0, 0, 2, 0x7B, 0x7D :: byte] 8 12 = [0, 0, 0, 2]"
  "py_slice [0x11, 0x14, 0, 0, 0, 0, 0, 1, 0, 0, 0, 2, 0x7B, 0x7D :: byte] 12 14 = [0x7B, 0x7D]"
  "py_slice [0x11, 0x14, 0, 0, 0, 0, 0, 1, 0, 0, 0, 2, 0x7B, 0x7D :: byte] 14 18 = []"
  "py_slice [0x11, 0x14, 0, 0, 0, 0, 0, 1, 0, 0, 0, 2, 0x7B, 0x7D :: byte] 18 18 = []"
  by (simp_all add: py_slice_def slice_bound_def Let_def)

lemma start_connection_bits:
  "drop_bit 4 (uint (0x14 :: byte)) AND 15 = (1 :: int)" "uint (0x14 :: byte) AND 0x0F = 4"
  by simp_all

lemma utf8_decode_braces: "utf8_decode [0x7B, 0x7D] = Inr [0x7B, 0x7D]"
  by (simp add: Let_def)

text \<open>
  The frame \<open>_send_start_connection\<close> puts on the wire carries no session id; decoded,
  its payload length and payload are read as the session id, and the payload comes back
  empty.
\<close>

theorem tts_roundtrip_counterexample:
  "send_start_connection = Inr [0x11, 0x14, 0, 0, 0, 0, 0, 1, 0, 0, 0, 2, 0x7B, 0x7D] \<and>
   decode_fields [0x11, 0x14, 0, 0, 0, 0, 0, 1, 0, 0, 0, 2, 0x7B, 0x7D]
     = Inr (1, 4, 1, Some [0x7B, 0x7D], Some []) \<and>
   decode_fields [0x11, 0x14, 0, 0, 0, 0, 0, 1, 0, 0, 0, 2, 0x7B, 0x7D]
     \<noteq> Inr (1, 4, 1, None, Some [0x7B, 0x7D])"
proof -
  define res :: "byte list" where "res = [0x11, 0x14, 0, 0, 0, 0, 0, 1, 0, 0, 0, 2, 0x7B, 0x7D]"
  have e: "send_start_connection = Inr res"
    by (simp add: send_start_connection_def encode_frame_def header_as_bytes_def Header_def
        optional_as_bytes_def Optional_def send_event_with_protocol_def to_byte_def
        to_bytes4_def be32_small FULL_CLIENT_REQUEST_def MsgTypeFlagWithEvent_def
        NO_SERIALIZATION_def COMPRESSION_NO_def EVENT_Start_Connection_def EVENT_NONE_def
        PROTOCOL_VERSION_def DEFAULT_HEADER_SIZE_def res_def)
  have idx: "py_index res 0 = Inr 0x11" "py_index res 1 = Inr 0x14"
    "py_index res 2 = Inr 0" "py_index res 3 = Inr 0"
    by (simp_all add: py_index_def res_def)
  have c: "read_res_content res 8 = Inr ([0x7B, 0x7D], 14)"
    by (simp add: read_res_content_def Let_def res_def start_connection_slices
        from_bytes_small utf8_decode_braces)
  have p: "read_res_payload res 14 = ([], 18)"
    by (simp add: read_res_payload_def Let_def res_def start_connection_slices from_bytes_small)
  have ev: "from_bytes_signed (py_slice res 4 8) = 1"
    by (simp add: res_def start_connection_slices from_bytes_small)
  have "parse_response res = Inr
          \<lparr>header = (Header 0 0 NO_SERIALIZATION COMPRESSION_NO)
                  \<lparr>protocol_version := drop_bit 4 (uint (0x11 :: byte)) AND 15,
                   header_size := uint (0x11 :: byte) AND 0x0F,
                   message_type := 1,
                   message_type_specific_flags := 4\<rparr>,
           serialization_method = drop_bit 15 (uint (0 :: byte)),
           message_compression = uint (0 :: byte) AND 0x0F,
           reserved = uint (0 :: byte),
           optional = (Optional EVENT_NONE None None)\<lparr>event := 1, sessionId := Some [0x7B, 0x7D]\<rparr>,
           payload = Some []\<rparr>"
    unfolding parse_response_def idx Let_def ebind_Inr start_connection_bits
    by (simp add: MsgTypeFlagWithEvent_def AUDIO_ONLY_RESPONSE_def ev c p
        EVENT_NONE_def EVENT_ConnectionStarted_def EVENT_ConnectionFailed_def
        EVENT_SessionStarted_def EVENT_SessionFailed_def EVENT_SessionFinished_def)
  then have d: "decode_fields res = Inr (1, 4, 1, Some [0x7B, 0x7D], Some [])"
    by (simp add: decode_fields_def Optional_def)
  from e d show ?thesis unfolding res_def by simp
qed

subsection \<open>Registry\<close>

lemma cancel_stream_by_session_keeps_tables:
  "active_streams (snd (cancel_stream_by_session r sid)) = active_streams r \<and>
   live_to_sessions (snd (cancel_stream_by_session r sid)) = live_to_sessions r"
  by (simp add: cancel_stream_by_session_def Let_def split: option.split)

lemma cancel_stream_by_session_registered:
  assumes "active_streams r sid = Some st"
  shows "fst (cancel_stream_by_session r sid) = 1"
  using assms by (simp add: cancel_stream_by_session_def Let_def)

text \<open>
  C4.  Cancelling a session twice.  The docstring of \<open>cancel_stream_by_session\<close>
  promises the number of events triggered, which is 1 for the first call on a registered
  session and 0 for the second.  The code returns 1 whenever the session id is in
  \<open>active_streams\<close>, also when the event was set already: on a session registered under
  a room and cancelled twice, both calls return 1 (and the event is set after each).
  Releasing the session afterwards removes it from both tables, see
  \<open>cleanup_removes_session\<close> and \<open>cleanup_removes_from_room\<close> below.
\<close>

theorem cancel_twice_returns_one_one:
  "(let (ev, r0) = register_stream_session empty_registry ''s1'' (Some ''room'');
        (n1, r1) = cancel_stream_by_session r0 ''s1'';
        (n2, r2) = cancel_stream_by_session r1 ''s1''
    in (n1, n2, events r1 ev, events r2 ev)) = (1, 1, True, True)"
  by (simp add: register_stream_session_def cancel_stream_by_session_def empty_registry_def Let_def)

subsection \<open>Avatar client\<close>

lemma dh_inv_init: "dh_inv dh_init"
  by (simp add: dh_inv_def dh_init_def)

lemma dh_inv_connect_ok: "dh_inv (connect_ok c)"
  by (simp add: dh_inv_def connect_ok_def)

lemma dh_inv_start_live_bind: "start_live_bind c lid = Some c' \<Longrightarrow> dh_inv c'"
  by (auto simp add: dh_inv_def start_live_bind_def split: if_splits)

lemma dh_inv_stop_live: "dh_inv c \<Longrightarrow> dh_inv (fst (stop_live env c))"
  by (auto simp add: dh_inv_def stop_live_def split: outcome.splits dh_exn.splits)

lemma dh_inv_disconnect: "dh_inv c \<Longrightarrow> dh_inv (fst (disconnect env c))"
  by (auto simp add: dh_inv_def disconnect_def Let_def split: prod.splits)

lemma stop_live_keeps_socket: "websocket (fst (stop_live env c)) = websocket c"
  by (auto simp add: stop_live_def split: outcome.splits dh_exn.splits)

lemma reachable_dh_inv:
  assumes "dh_reachable c"
  shows "dh_inv c"
  using assms
proof (induction rule: dh_reachable.induct)
  case created
  show ?case by (rule dh_inv_init)
next
  case (connected c)
  show ?case by (rule dh_inv_connect_ok)
next
  case (bound c lid c')
  then show ?case by (simp add: dh_inv_start_live_bind)
next
  case (stopped c env)
  then show ?case by (simp add: dh_inv_stop_live)
next
  case (disconnected c env)
  then show ?case by (simp add: dh_inv_disconnect)
next
  case (socket_state c st)
  then show ?case by (simp add: dh_inv_def)
next
  case (unbound c)
  then show ?case by (simp add: dh_inv_def)
qed

text \<open>
  C8.  \<open>disconnect\<close> on a client in any state it can be in.  Whatever the network does,
  the client ends with \<open>websocket = None\<close> and \<open>live_id = None\<close>.  With a socket and a
  live id bound it sends the stop command \<open>|CTL|01|\<close> first; unless that send is
  cancelled it then sleeps, whether the send returned, timed out or failed; and when the
  sleep has returned it closes the socket, unless the socket is by then in state
  \<open>CLOSED\<close>, in which case nothing more is done.  With a socket and no live id bound it
  closes the socket at once, again unless it is \<open>CLOSED\<close>.  Without a socket it does
  nothing.  No exception escapes other than a cancellation, and none at all when neither
  the send nor the sleep nor the close is cancelled.
\<close>

theorem disconnect_postcondition:
  assumes "dh_reachable c"
  shows "(case disconnect env c of
            (c', tr, r) \<Rightarrow>
              websocket c' = None \<and> live_id c' = None \<and>
              (websocket c \<noteq> None \<and> truthy_str (live_id c) \<longrightarrow>
                 (send_outcome env = Raises CancelledError \<longrightarrow> tr = [Send ''|CTL|01|'']) \<and>
                 (send_outcome env \<noteq> Raises CancelledError \<and> sleep_outcome env \<noteq> Returns \<longrightarrow>
                    tr = [Send ''|CTL|01|'', Sleep]) \<and>
                 (send_outcome env \<noteq> Raises CancelledError \<and> sleep_outcome env = Returns \<longrightarrow>
                    tr = [Send ''|CTL|01|'', Sleep]
                           @ (if state_at_close env = CLOSED then [] else [Close]))) \<and>
              (websocket c \<noteq> None \<and> \<not> truthy_str (live_id c) \<longrightarrow>
                 tr = (if state_at_close env = CLOSED then [] else [Close])) \<and>
              (websocket c = None \<longrightarrow> tr = []) \<and>
              (r = None \<or> r = Some CancelledError) \<and>
              (send_outcome env \<noteq> Raises CancelledError \<and>
               sleep_outcome env \<noteq> Raises CancelledError \<and>
               close_outcome env \<noteq> Raises CancelledError \<longrightarrow> r = None))"
  using reachable_dh_inv [OF assms]
  by (auto simp add: dh_inv_def disconnect_def disconnect_try_def disconnect_close_def
      stop_live_def Let_def
      split: prod.splits outcome.splits dh_exn.splits option.splits if_splits)

theorem disconnect_postcondition_witness:
  "dh_reachable \<lparr>websocket = Some OPEN, live_id = Some ''room''\<rparr> \<and>
   disconnect \<lparr>send_outcome = Returns, sleep_outcome = Returns, state_at_close = OPEN,
                close_outcome = Raises TimeoutError\<rparr>
      \<lparr>websocket = Some OPEN, live_id = Some ''room''\<rparr>
     = (\<lparr>websocket = None, live_id = None\<rparr>, [Send ''|CTL|01|'', Sleep, Close], None)"
proof -
  have "dh_reachable (connect_ok dh_init)" by (rule dh_reachable.connected [OF dh_reachable.created])
  moreover have "start_live_bind (connect_ok dh_init) ''room''
                   = Some \<lparr>websocket = Some OPEN, live_id = Some ''room''\<rparr>"
    by (simp add: start_live_bind_def connect_ok_def dh_init_def)
  ultimately have r: "dh_reachable \<lparr>websocket = Some OPEN, live_id = Some ''room''\<rparr>"
    by (rule dh_reachable.bound)
  from disconnect_postcondition [OF r,
      of "\<lparr>send_outcome = Returns, sleep_outcome = Returns, state_at_close = OPEN,
                close_outcome = Raises TimeoutError\<rparr>"] r
  show ?thesis
    by (simp add: disconnect_def disconnect_try_def disconnect_close_def stop_live_def Let_def)
qed

subsection \<open>Join-room coordinator\<close>

lemma check_existing_fst: "fst (check_existing s c lid) = already_active s c lid"
  by (simp add: check_existing_def already_active_def split: option.split)

lemma check_existing_not_active:
  assumes "check_existing s c lid = (False, s1)"
  shows "active_sessions s1 lid = None" "pending_requests s1 = pending_requests s"
    "failed_requests s1 = failed_requests s" "connection_lock s1 = connection_lock s"
    "digital_human_client s = Some c \<Longrightarrow> digital_human_client s1 \<noteq> None"
  using assms by (auto simp add: check_existing_def split: option.splits if_splits)

lemma check_existing_active:
  assumes "check_existing s c lid = (True, s1)"
  shows "s1 = s"
  using assms by (auto simp add: check_existing_def split: option.splits if_splits)

lemma check_existing_absent:
  assumes "active_sessions s lid = None"
  shows "check_existing s c lid = (False, s)"
  using assms by (simp add: check_existing_def)

lemma pending_in_progress_cong:
  "pending_requests s1 = pending_requests s \<Longrightarrow> pending_in_progress s1 lid = pending_in_progress s lid"
  by (simp add: pending_in_progress_def)

lemma failed_record_failure [simp]: "failed_requests (record_failure s lid t) lid = Some t"
  by (simp add: record_failure_def)

lemma record_failure_other [simp]:
  "pending_requests (record_failure s lid t) = pending_requests s"
  "active_sessions (record_failure s lid t) = active_sessions s"
  "digital_human_client (record_failure s lid t) = digital_human_client s"
  "connection_lock (record_failure s lid t) = connection_lock s"
  by (simp_all add: record_failure_def)

lemma begin_failure_recorded:
  assumes "join_room_begin fl s lid t f = (Finished (Inl e), s')"
  shows "failed_requests s' lid = Some f"
  using assms
  by (auto simp add: join_room_begin_def join_room_locked_def
      split: prod.splits sum.splits bool.splits if_splits)

lemma locked_failure_recorded:
  assumes "join_room_locked s lid f = (Finished (Inl e), s')"
  shows "failed_requests s' lid = Some f"
  using assms by (auto simp add: join_room_locked_def split: if_splits)

lemma complete_failure_recorded:
  assumes "join_room_complete s lid attempts start created f = (Inl e, s')"
  shows "failed_requests s' lid = Some f"
  using assms
  by (auto simp add: join_room_complete_def Let_def
      split: prod.splits sum.splits option.splits task_exn.splits)

lemma timeout_failure_recorded:
  assumes "join_room_timeout s lid c f = (Inl e, s')"
  shows "failed_requests s' lid = Some f"
  using assms by (auto simp add: join_room_timeout_def)

lemma cooldown_rejection_state:
  assumes "join_room_begin fl s lid t f = (Finished (Inl (HTTPException 429 (Cooldown k))), s')"
  shows "digital_human_client s' \<noteq> None \<and> active_sessions s' lid = None \<and>
         \<not> pending_in_progress s' lid \<and> failed_requests s' lid = Some f"
proof -
  from assms obtain s1 where
    chk: "join_room_checks fl s lid t = (Inl (HTTPException 429 (Cooldown k)), s1)"
      and s': "s' = record_failure s1 lid f"
    by (auto simp add: join_room_begin_def join_room_locked_def
        split: prod.splits sum.splits bool.splits if_splits)
  from chk obtain c where c: "digital_human_client s = Some c"
    by (auto simp add: join_room_checks_def split: option.splits)
  from chk c have ce: "check_existing s c lid = (False, s1)" and np: "\<not> pending_in_progress s1 lid"
    by (auto simp add: join_room_checks_def Let_def split: prod.splits if_splits option.splits)
  from check_existing_not_active [OF ce] c np show ?thesis
    by (simp add: s' pending_in_progress_def)
qed

lemma cooldown_gate:
  assumes "digital_human_client s = Some c" "active_sessions s lid = None"
    "\<not> pending_in_progress s lid" "failed_requests s lid = Some failed_at"
    "fless fl (fsub fl t failed_at) (COOLDOWN_PERIOD fl)"
  shows "join_room_begin fl s lid t f
           = (Finished (Inl (HTTPException 429
                (Cooldown (fint fl (fsub fl (COOLDOWN_PERIOD fl) (fsub fl t failed_at)))))),
              record_failure s lid f)"
  using assms
  by (simp add: join_room_begin_def join_room_checks_def check_existing_absent Let_def)

lemma check_existing_when_not_active:
  assumes "\<not> already_active s c lid"
  shows "\<exists>s1. check_existing s c lid = (False, s1) \<and> pending_requests s1 = pending_requests s
            \<and> failed_requests s1 = failed_requests s \<and> connection_lock s1 = connection_lock s"
  using assms
  by (auto simp add: check_existing_def already_active_def split: option.splits)

lemma check_existing_when_active:
  assumes "already_active s c lid"
  shows "check_existing s c lid = (True, s)"
  using assms
  by (auto simp add: check_existing_def already_active_def split: option.splits)





lemma pending_rejected:
  assumes "pending_in_progress s lid" "digital_human_client s = Some c"
    "\<not> already_active s c lid"
  shows "join_room_begin fl s lid t f
           = (Finished (Inl (HTTPException 429 InProgress)),
              record_failure (snd (check_existing s c lid)) lid f) \<and>
         pending_requests (snd (check_existing s c lid)) = pending_requests s"
proof -
  from check_existing_when_not_active [OF assms(3)] obtain s1 where
    s1: "check_existing s c lid = (False, s1)" "pending_requests s1 = pending_requests s"
    by blast
  have "pending_in_progress s1 lid"
    using assms(1) pending_in_progress_cong [OF s1(2)] by simp
  then show ?thesis using assms(2) s1
    by (simp add: join_room_begin_def join_room_checks_def Let_def)
qed

lemma pending_answered_active:
  assumes "digital_human_client s = Some c" "already_active s c lid"
  shows "join_room_begin fl s lid t f = (Finished (Inr AlreadyActive), s)"
  using assms check_existing_when_active [OF assms(2)]
  by (simp add: join_room_begin_def join_room_checks_def)

lemma task_created_on_arrival:
  assumes "join_room_begin fl s lid t1 f1 = (AwaitTask, s1)"
  shows "pending_in_progress s1 lid \<and>
         join_room_begin fl (s1\<lparr>digital_human_client := Some c\<rparr>) lid t2 f2
           = (Finished (Inl (HTTPException 429 InProgress)),
              record_failure (s1\<lparr>digital_human_client := Some c\<rparr>) lid f2)"
proof -
  from assms obtain s0 where
    chk: "join_room_checks fl s lid t1 = (Inr False, s0)" and
    lk: "join_room_locked s0 lid f1 = (AwaitTask, s1)"
    by (auto simp add: join_room_begin_def split: prod.splits sum.splits bool.splits if_splits)
  from chk have a0: "active_sessions s0 lid = None"
    by (auto simp add: join_room_checks_def Let_def
        split: option.splits prod.splits if_splits dest: check_existing_not_active(1))
  from lk have s1: "s1 = s0\<lparr>pending_requests := (pending_requests s0)(lid \<mapsto> \<lparr>task_done = False\<rparr>),
           connection_lock := True\<rparr>"
    by (auto simp add: join_room_locked_def split: if_splits)
  have p: "pending_in_progress s1 lid" by (simp add: s1 pending_in_progress_def)
  let ?s = "s1\<lparr>digital_human_client := Some c\<rparr>"
  have a1: "active_sessions ?s lid = None" using a0 by (simp add: s1)
  have p1: "pending_in_progress ?s lid" by (simp add: s1 pending_in_progress_def)
  have "join_room_checks fl ?s lid t2 = (Inl (HTTPException 429 InProgress), ?s)"
    using p1 by (simp add: join_room_checks_def check_existing_absent [OF a1])
  then have "join_room_begin fl ?s lid t2 f2
           = (Finished (Inl (HTTPException 429 InProgress)), record_failure ?s lid f2)"
    by (simp add: join_room_begin_def)
  with p show ?thesis by simp
qed

lemma complete_joined:
  assumes "digital_human_client s = Some c" "attempts 0 = AttemptOk"
  shows "join_room_complete s lid attempts StartOk created f
           = (Inr Joined,
              s\<lparr>digital_human_client := Some (c\<lparr>websocket := Some OPEN, live_id := Some lid\<rparr>),
                pending_requests := (pending_requests s)(lid := None),
                connection_lock := False,
                active_sessions :=
                  (active_sessions s)(lid \<mapsto> \<lparr>status = ''active'', created_at = created\<rparr>)\<rparr>)"
  using assms
  by (simp add: join_room_complete_def join_room_task_def connect_loop.simps [of attempts 0]
      connect_ok_def start_live_bind_def Let_def)

lemma scenario_state:
  "cooldown_scenario =
     \<lparr>digital_human_client = Some \<lparr>websocket = Some OPEN, live_id = Some ''room''\<rparr>,
      active_sessions = [''room'' \<mapsto> \<lparr>status = ''active'', created_at = 2\<rparr>],
      pending_requests = Map.empty,
      failed_requests = [''room'' \<mapsto> 1],
      connection_lock = False\<rparr>"
  by (simp add: cooldown_scenario_def startup_server_def join_room_begin_def whole_seconds_def
      join_room_checks_def check_existing_def pending_in_progress_def join_room_locked_def
      join_room_complete_def join_room_task_def connect_loop.simps always_ok_def
      connect_ok_def start_live_bind_def dh_init_def record_failure_def Let_def)

lemma lock_waiter_state:
  "lock_waiter_scenario =
     \<lparr>digital_human_client = Some \<lparr>websocket = Some OPEN, live_id = Some ''room''\<rparr>,
      active_sessions = [''other'' \<mapsto> \<lparr>status = ''active'', created_at = 3\<rparr>,
                         ''room'' \<mapsto> \<lparr>status = ''active'', created_at = 5\<rparr>],
      pending_requests = [''room'' \<mapsto> \<lparr>task_done = False\<rparr>],
      failed_requests = Map.empty,
      connection_lock = True\<rparr>"
  by (simp add: lock_waiter_scenario_def startup_server_def join_room_begin_def whole_seconds_def
      join_room_checks_def check_existing_def pending_in_progress_def join_room_locked_def
      join_room_complete_def join_room_task_def connect_loop.simps always_ok_def
      connect_ok_def start_live_bind_def dh_init_def record_failure_def Let_def)

text \<open>
  C7.  At most one pending join.  A request for a live id that arrives while a task for
  the same live id is pending, with the client initialised, is rejected at once with the
  429 "already in progress" error unless the room is at that moment answered as already
  active; the rejected request creates no task, and the failure time is recorded.  A room
  that is answered as already active gets the existing session although a task is pending,
  with nothing changed.  When the pending task was created by a request on its arrival,
  the room is not active, so every second request, whatever the client's state has become,
  is rejected.  The request that created the task is the one that makes the connection
  attempt: when its first pass connects and the start of the live session returns, it
  leaves the client connected and bound to the room, stores the active session, removes
  the pending entry and releases the lock.
\<close>

theorem second_join_rejected_while_pending:
  "(pending_in_progress s lid \<and> digital_human_client s = Some c \<and> \<not> already_active s c lid \<longrightarrow>
      join_room_begin fl s lid t f
        = (Finished (Inl (HTTPException 429 InProgress)),
           record_failure (snd (check_existing s c lid)) lid f) \<and>
      pending_requests (snd (check_existing s c lid)) = pending_requests s) \<and>
   (pending_in_progress s lid \<and> digital_human_client s = Some c \<and> already_active s c lid \<longrightarrow>
      join_room_begin fl s lid t f = (Finished (Inr AlreadyActive), s)) \<and>
   (join_room_begin fl s0 lid t1 f1 = (AwaitTask, s1) \<longrightarrow>
      pending_in_progress s1 lid \<and>
      join_room_begin fl (s1\<lparr>digital_human_client := Some c2\<rparr>) lid t2 f2
        = (Finished (Inl (HTTPException 429 InProgress)),
           record_failure (s1\<lparr>digital_human_client := Some c2\<rparr>) lid f2)) \<and>
   (digital_human_client s = Some c \<and> attempts 0 = AttemptOk \<longrightarrow>
      join_room_complete s lid attempts StartOk created f
        = (Inr Joined,
           s\<lparr>digital_human_client := Some (c\<lparr>websocket := Some OPEN, live_id := Some lid\<rparr>),
             pending_requests := (pending_requests s)(lid := None),
             connection_lock := False,
             active_sessions :=
               (active_sessions s)(lid \<mapsto> \<lparr>status = ''active'', created_at = created\<rparr>)\<rparr>))"
proof (intro conjI impI)
  assume a: "pending_in_progress s lid \<and> digital_human_client s = Some c \<and>
             \<not> already_active s c lid"
  then have r: "join_room_begin fl s lid t f
        = (Finished (Inl (HTTPException 429 InProgress)),
           record_failure (snd (check_existing s c lid)) lid f) \<and>
      pending_requests (snd (check_existing s c lid)) = pending_requests s"
    by (intro pending_rejected) simp_all
  from r show "join_room_begin fl s lid t f
        = (Finished (Inl (HTTPException 429 InProgress)),
           record_failure (snd (check_existing s c lid)) lid f)" by (rule conjunct1)
  from r show "pending_requests (snd (check_existing s c lid)) = pending_requests s"
    by (rule conjunct2)
next
  assume "pending_in_progress s lid \<and> digital_human_client s = Some c \<and> already_active s c lid"
  then show "join_room_begin fl s lid t f = (Finished (Inr AlreadyActive), s)"
    using pending_answered_active [of s c lid fl t f] by simp
next
  assume a: "join_room_begin fl s0 lid t1 f1 = (AwaitTask, s1)"
  from task_created_on_arrival [OF a] show "pending_in_progress s1 lid" by (rule conjunct1)
  from task_created_on_arrival [OF a]
  show "join_room_begin fl (s1\<lparr>digital_human_client := Some c2\<rparr>) lid t2 f2
        = (Finished (Inl (HTTPException 429 InProgress)),
           record_failure (s1\<lparr>digital_human_client := Some c2\<rparr>) lid f2)" by (rule conjunct2)
next
  assume "digital_human_client s = Some c \<and> attempts 0 = AttemptOk"
  then show "join_room_complete s lid attempts StartOk created f
        = (Inr Joined,
           s\<lparr>digital_human_client := Some (c\<lparr>websocket := Some OPEN, live_id := Some lid\<rparr>),
             pending_requests := (pending_requests s)(lid := None),
             connection_lock := False,
             active_sessions :=
               (active_sessions s)(lid \<mapsto> \<lparr>status = ''active'', created_at = created\<rparr>)\<rparr>)"
    by (intro complete_joined) simp_all
qed

text \<open>
  The first request arrives at the server as started and awaits its task; a second one is
  rejected and changes nothing but the failure record; the first one then joins.  In a
  state with the room active and a task pending, a request gets the existing session.
\<close>

theorem second_join_rejected_while_pending_witness:
  "join_room_begin whole_seconds startup_server ''room'' 0 0
     = (AwaitTask,
        startup_server\<lparr>pending_requests := [''room'' \<mapsto> \<lparr>task_done = False\<rparr>],
                       connection_lock := True\<rparr>) \<and>
   pending_in_progress
     (startup_server\<lparr>pending_requests := [''room'' \<mapsto> \<lparr>task_done = False\<rparr>],
                    connection_lock := True\<rparr> :: int server) ''room'' \<and>
   \<not> already_active
     (startup_server\<lparr>pending_requests := [''room'' \<mapsto> \<lparr>task_done = False\<rparr>],
                    connection_lock := True\<rparr> :: int server) dh_init ''room'' \<and>
   join_room_begin whole_seconds
     (startup_server\<lparr>pending_requests := [''room'' \<mapsto> \<lparr>task_done = False\<rparr>],
                    connection_lock := True\<rparr>) ''room'' 1 1
     = (Finished (Inl (HTTPException 429 InProgress)),
        startup_server\<lparr>pending_requests := [''room'' \<mapsto> \<lparr>task_done = False\<rparr>],
                       connection_lock := True, failed_requests := [''room'' \<mapsto> 1]\<rparr>) \<and>
   join_room_complete
     (startup_server\<lparr>pending_requests := [''room'' \<mapsto> \<lparr>task_done = False\<rparr>],
                    connection_lock := True, failed_requests := [''room'' \<mapsto> 1]\<rparr>)
     ''room'' always_ok StartOk (2 :: int) 2
     = (Inr Joined, cooldown_scenario) \<and>
   pending_in_progress
     (cooldown_scenario\<lparr>pending_requests := [''room'' \<mapsto> \<lparr>task_done = False\<rparr>]\<rparr>) ''room'' \<and>
   already_active
     (cooldown_scenario\<lparr>pending_requests := [''room'' \<mapsto> \<lparr>task_done = False\<rparr>]\<rparr>)
     \<lparr>websocket = Some OPEN, live_id = Some ''room''\<rparr> ''room'' \<and>
   join_room_begin whole_seconds
     (cooldown_scenario\<lparr>pending_requests := [''room'' \<mapsto> \<lparr>task_done = False\<rparr>]\<rparr>) ''room'' 3 3
     = (Finished (Inr AlreadyActive),
        cooldown_scenario\<lparr>pending_requests := [''room'' \<mapsto> \<lparr>task_done = False\<rparr>]\<rparr>)"
proof -
  let ?s1 = "startup_server\<lparr>pending_requests := [''room'' \<mapsto> \<lparr>task_done = False\<rparr>],
                           connection_lock := True\<rparr> :: int server"
  let ?s2 = "startup_server\<lparr>pending_requests := [''room'' \<mapsto> \<lparr>task_done = False\<rparr>],
                       connection_lock := True, failed_requests := [''room'' \<mapsto> 1]\<rparr> :: int server"
  let ?s3 = "cooldown_scenario\<lparr>pending_requests := [''room'' \<mapsto> \<lparr>task_done = False\<rparr>]\<rparr>"
  have h: "join_room_begin whole_seconds startup_server ''room'' 0 0 = (AwaitTask, ?s1)"
    by (simp add: startup_server_def join_room_begin_def join_room_checks_def check_existing_def
        pending_in_progress_def join_room_locked_def Let_def)
  have p1: "pending_in_progress ?s1 ''room''"
    by (simp add: startup_server_def pending_in_progress_def)
  have c1: "digital_human_client ?s1 = Some dh_init" by (simp add: startup_server_def)
  have n1: "\<not> already_active ?s1 dh_init ''room''"
    by (simp add: startup_server_def already_active_def)
  have ce: "record_failure (snd (check_existing ?s1 dh_init ''room'')) ''room'' 1 = ?s2"
    by (simp add: startup_server_def check_existing_def record_failure_def)
  have c2: "digital_human_client ?s2 = Some dh_init" by (simp add: startup_server_def)
  have ok: "always_ok 0 = AttemptOk" by (simp add: always_ok_def)
  have fin: "?s2\<lparr>digital_human_client :=
                  Some (dh_init\<lparr>websocket := Some OPEN, live_id := Some ''room''\<rparr>),
                pending_requests := (pending_requests ?s2)(''room'' := None),
                connection_lock := False,
                active_sessions :=
                  (active_sessions ?s2)(''room'' \<mapsto> \<lparr>status = ''active'', created_at = 2\<rparr>)\<rparr>
             = cooldown_scenario"
    unfolding scenario_state by (simp add: startup_server_def dh_init_def)
  have p3: "pending_in_progress ?s3 ''room''"
    by (simp add: pending_in_progress_def)
  have c3: "digital_human_client ?s3 = Some \<lparr>websocket = Some OPEN, live_id = Some ''room''\<rparr>"
    unfolding scenario_state by simp
  have a3: "already_active ?s3 \<lparr>websocket = Some OPEN, live_id = Some ''room''\<rparr> ''room''"
    unfolding scenario_state by (simp add: already_active_def is_connected_def)
  note t1 = second_join_rejected_while_pending
      [where s = ?s1 and lid = "''room''" and c = dh_init and fl = whole_seconds
        and t = 1 and f = 1 and ?s0.0 = startup_server and ?t1.0 = 0 and ?f1.0 = 0
        and ?s1.0 = ?s1 and attempts = "\<lambda>i. AttemptError"]
  note t2 = second_join_rejected_while_pending
      [where s = ?s2 and lid = "''room''" and c = dh_init and fl = whole_seconds
        and ?s0.0 = startup_server and ?t1.0 = 0 and ?f1.0 = 0
        and ?s1.0 = ?s1 and attempts = always_ok and created = 2 and f = 2]
  note t3 = second_join_rejected_while_pending
      [where s = ?s3 and lid = "''room''"
        and c = "\<lparr>websocket = Some OPEN, live_id = Some ''room''\<rparr>" and fl = whole_seconds
        and t = 3 and f = 3 and ?s0.0 = startup_server and ?t1.0 = 0 and ?f1.0 = 0
        and ?s1.0 = ?s1 and attempts = "\<lambda>i. AttemptError"]
  from t1 p1 c1 n1 have r1: "join_room_begin whole_seconds ?s1 ''room'' 1 1
        = (Finished (Inl (HTTPException 429 InProgress)),
           record_failure (snd (check_existing ?s1 dh_init ''room'')) ''room'' 1)" by blast
  from t2 c2 ok have r2: "join_room_complete ?s2 ''room'' always_ok StartOk 2 2
        = (Inr Joined,
           ?s2\<lparr>digital_human_client :=
                  Some (dh_init\<lparr>websocket := Some OPEN, live_id := Some ''room''\<rparr>),
                pending_requests := (pending_requests ?s2)(''room'' := None),
                connection_lock := False,
                active_sessions :=
                  (active_sessions ?s2)(''room'' \<mapsto> \<lparr>status = ''active'', created_at = 2\<rparr>)\<rparr>)"
    by blast
  from t3 p3 c3 a3 have r3: "join_room_begin whole_seconds ?s3 ''room'' 3 3
        = (Finished (Inr AlreadyActive), ?s3)" by blast
  show ?thesis
    using h p1 n1 r1 [unfolded ce] r2 [unfolded fin] p3 a3 r3 by blast
qed

text \<open>
  In the state reached by \<open>lock_waiter_scenario\<close> the task of a request that waited for
  the lock is pending while the room is active: a request arriving then is answered with
  the existing session, so neither of the two requests is rejected.
\<close>

theorem pending_join_counterexample:
  "pending_in_progress lock_waiter_scenario ''room'' \<and>
   join_room_begin whole_seconds lock_waiter_scenario ''room'' 7 7
     = (Finished (Inr AlreadyActive), lock_waiter_scenario)"
  unfolding lock_waiter_state
  by (simp add: pending_in_progress_def join_room_begin_def join_room_checks_def
      check_existing_def is_connected_def)

text \<open>
  C9.  Every path on which \<open>join_room\<close> raises an HTTP exception stores the handler's
  clock reading as the failure time of the live id: a rejection before the lock (500,
  429 in progress, 429 cooldown), the rejection inside the lock, an exception of the task,
  and the overall timeout.  In particular a request rejected for cooldown replaces the
  failure time: a retry for which the code's test \<open>current_time - failed_at < COOLDOWN_PERIOD\<close>,
  computed from that rejection's time, succeeds is rejected again with the remaining time
  the code computes from it, however old the original failure is, and records its own time.
\<close>

theorem every_http_failure_recorded:
  "(join_room_begin fl s lid t f = (Finished (Inl e), s') \<longrightarrow> failed_requests s' lid = Some f) \<and>
   (join_room_locked s lid f = (Finished (Inl e), s') \<longrightarrow> failed_requests s' lid = Some f) \<and>
   (join_room_complete s lid attempts start created f = (Inl e, s') \<longrightarrow>
      failed_requests s' lid = Some f) \<and>
   (join_room_timeout s lid c f = (Inl e, s') \<longrightarrow> failed_requests s' lid = Some f) \<and>
   (join_room_begin fl s lid t f = (Finished (Inl (HTTPException 429 (Cooldown k))), s') \<and>
    fless fl (fsub fl t2 f) (COOLDOWN_PERIOD fl) \<longrightarrow>
      join_room_begin fl s' lid t2 f2
        = (Finished (Inl (HTTPException 429
             (Cooldown (fint fl (fsub fl (COOLDOWN_PERIOD fl) (fsub fl t2 f)))))),
           record_failure s' lid f2))"
proof (intro conjI impI)
  assume "join_room_begin fl s lid t f = (Finished (Inl e), s')"
  then show "failed_requests s' lid = Some f" by (rule begin_failure_recorded)
next
  assume "join_room_locked s lid f = (Finished (Inl e), s')"
  then show "failed_requests s' lid = Some f" by (rule locked_failure_recorded)
next
  assume "join_room_complete s lid attempts start created f = (Inl e, s')"
  then show "failed_requests s' lid = Some f" by (rule complete_failure_recorded)
next
  assume "join_room_timeout s lid c f = (Inl e, s')"
  then show "failed_requests s' lid = Some f" by (rule timeout_failure_recorded)
next
  assume a: "join_room_begin fl s lid t f = (Finished (Inl (HTTPException 429 (Cooldown k))), s')
              \<and> fless fl (fsub fl t2 f) (COOLDOWN_PERIOD fl)"
  from cooldown_rejection_state [OF a [THEN conjunct1]] obtain c where
    "digital_human_client s' = Some c" "active_sessions s' lid = None"
    "\<not> pending_in_progress s' lid" "failed_requests s' lid = Some f" by auto
  from cooldown_gate [OF this a [THEN conjunct2]]
  show "join_room_begin fl s' lid t2 f2
        = (Finished (Inl (HTTPException 429
             (Cooldown (fint fl (fsub fl (COOLDOWN_PERIOD fl) (fsub fl t2 f)))))),
           record_failure s' lid f2)" .
qed

text \<open>
  A failure recorded at time 0; a request at time 5 is rejected with 5 seconds left and
  records time 5; a request at time 12, more than ten seconds after the original failure
  and seven after the rejection, is rejected with 3 seconds left and records time 12.
\<close>

theorem every_http_failure_recorded_witness:
  "join_room_begin whole_seconds (startup_server\<lparr>failed_requests := [''room'' \<mapsto> 0]\<rparr>)
       ''room'' 5 5
     = (Finished (Inl (HTTPException 429 (Cooldown 5))),
        startup_server\<lparr>failed_requests := [''room'' \<mapsto> 5]\<rparr>) \<and>
   fless whole_seconds (fsub whole_seconds 12 5) (COOLDOWN_PERIOD whole_seconds) \<and>
   \<not> fless whole_seconds (fsub whole_seconds 12 0) (COOLDOWN_PERIOD whole_seconds) \<and>
   join_room_begin whole_seconds (startup_server\<lparr>failed_requests := [''room'' \<mapsto> 5]\<rparr>)
       ''room'' 12 12
     = (Finished (Inl (HTTPException 429 (Cooldown 3))),
        startup_server\<lparr>failed_requests := [''room'' \<mapsto> 12]\<rparr>)"
proof -
  have h: "join_room_begin whole_seconds (startup_server\<lparr>failed_requests := [''room'' \<mapsto> 0]\<rparr>)
       ''room'' 5 5
     = (Finished (Inl (HTTPException 429 (Cooldown 5))),
        startup_server\<lparr>failed_requests := [''room'' \<mapsto> 5]\<rparr>)"
    by (simp add: startup_server_def join_room_begin_def join_room_checks_def check_existing_def
        pending_in_progress_def record_failure_def COOLDOWN_PERIOD_def whole_seconds_def Let_def)
  have c: "fless whole_seconds (fsub whole_seconds 12 5) (COOLDOWN_PERIOD whole_seconds)"
    by (simp add: COOLDOWN_PERIOD_def whole_seconds_def)
  from every_http_failure_recorded
      [where fl = whole_seconds and s = "startup_server\<lparr>failed_requests := [''room'' \<mapsto> 0]\<rparr>"
        and lid = "''room''" and t = 5 and f = 5 and e = "HTTPException 429 (Cooldown 5)"
        and s' = "startup_server\<lparr>failed_requests := [''room'' \<mapsto> 5]\<rparr>"
        and k = 5 and ?t2.0 = 12 and ?f2.0 = 12]
    h c
  show ?thesis
    by (simp add: startup_server_def record_failure_def COOLDOWN_PERIOD_def whole_seconds_def)
qed




subsection \<open>STT client\<close>

lemma handler_facts:
  assumes "send_audio_handler c = (r, c')"
  shows "seq c' = seq c" "\<not> seq_lock c'" "stt_is_connected c' = stt_is_connected c"
    "stt_websocket c' = stt_websocket c"
  using assms by (auto simp add: send_audio_handler_def split: option.splits outcome.splits)

lemma send_audio_locked_facts:
  assumes "send_audio_locked gz c a l = (p, c')"
  shows "seq c' = seq c"
    and "p \<noteq> SendAwaitLock"
    and "\<And>r. p = SendFinished r \<Longrightarrow> \<not> seq_lock c'"
    and "\<And>k request. p = SendAwaitSend k request \<Longrightarrow> k = seq c \<and> seq_lock c'"
  using assms
  by (auto simp add: send_audio_locked_def Let_def
      split: option.splits sum.splits if_splits prod.splits dest: handler_facts)

lemma full_locked_facts:
  assumes "send_full_client_request_locked c pl = (p, c')"
  shows "seq c' = seq c"
    and "p \<noteq> SendAwaitLock"
    and "\<And>r. p = SendFinished r \<Longrightarrow> \<not> seq_lock c'"
    and "\<And>k request. p = SendAwaitSend k request \<Longrightarrow> k = seq c \<and> seq_lock c'"
  using assms
  by (auto simp add: send_full_client_request_locked_def Let_def split: sum.splits)

lemma call_locked_facts:
  assumes "call_locked gz c call = (p, c')"
  shows "seq c' = seq c"
    and "p \<noteq> SendAwaitLock"
    and "\<And>r. p = SendFinished r \<Longrightarrow> \<not> seq_lock c'"
    and "\<And>k request. p = SendAwaitSend k request \<Longrightarrow> k = seq c \<and> seq_lock c'"
  using assms send_audio_locked_facts full_locked_facts
  by (cases call; simp; blast)+

lemma call_begin_locked:
  assumes "call_begin gz c call = (p, c')" "seq_lock c"
  shows "c' = c" "\<And>k request. p \<noteq> SendAwaitSend k request"
  using assms
  by (cases call;
      auto simp add: send_audio_begin_def send_full_client_request_begin_def split: if_splits)+

lemma call_begin_free:
  assumes "call_begin gz c call = (p, c')" "\<not> seq_lock c"
  shows "seq c' = seq c"
    and "p \<noteq> SendAwaitLock"
    and "\<And>r. p = SendFinished r \<Longrightarrow> \<not> seq_lock c'"
    and "\<And>k request. p = SendAwaitSend k request \<Longrightarrow> k = seq c \<and> seq_lock c'"
proof -
  have "(c' = c \<and> (\<exists>r. p = SendFinished r)) \<or> call_locked gz c call = (p, c')"
    using assms
    by (cases call)
      (auto simp add: send_audio_begin_def send_full_client_request_begin_def split: if_splits)
  then show "seq c' = seq c"
    and "p \<noteq> SendAwaitLock"
    and "\<And>r. p = SendFinished r \<Longrightarrow> \<not> seq_lock c'"
    and "\<And>k request. p = SendAwaitSend k request \<Longrightarrow> k = seq c \<and> seq_lock c'"
    using assms(2) call_locked_facts [of gz c call p c'] by auto
qed

lemma call_end_facts:
  assumes "call_end call sent c = (r, c')"
  shows "\<not> seq_lock c'" "seq c' = (if sent = Returns then seq c + 1 else seq c)"
  using assms
  by (cases call;
      auto simp add: send_audio_end_def send_full_client_request_end_def
        split: outcome.splits dh_exn.splits dest: handler_facts)+

lemma sending_seq_upd:
  "sending_seq (S\<lparr>client := c, calls := (calls S)(i := pc)\<rparr>) j
     = (if j = i then pc_seq pc else sending_seq S j)"
  by (simp add: sending_seq_def)

lemma pc_seq_after_begin:
  "pc_seq (after_begin call p) = (case p of SendAwaitSend k request \<Rightarrow> Some k | _ \<Rightarrow> None)"
  by (cases p) simp_all

lemma invariant_no_sending:
  assumes "seq_invariant S" "\<not> seq_lock (client S)"
  shows "sending_seq S j = None"
proof (cases "sending_seq S j")
  case None
  then show ?thesis .
next
  case (Some k)
  with assms show ?thesis by (auto simp add: seq_invariant_def)
qed

lemma invariant_same_sending:
  assumes inv: "seq_invariant S"
    and "client S' = client S" "wire S' = wire S" "\<And>j. sending_seq S' j = sending_seq S j"
  shows "seq_invariant S'"
  using assms by (simp add: seq_invariant_def)

lemma invariant_enter:
  assumes inv: "seq_invariant S" and free: "\<not> seq_lock (client S)"
    and sq: "seq c = seq (client S)"
    and snd: "\<And>k request. p = SendAwaitSend k request \<Longrightarrow> k = seq (client S) \<and> seq_lock c"
  shows "seq_invariant (S\<lparr>client := c, calls := (calls S)(i := after_begin call p)\<rparr>)"
proof -
  let ?S = "S\<lparr>client := c, calls := (calls S)(i := after_begin call p)\<rparr>"
  have none: "\<And>j. sending_seq S j = None" using invariant_no_sending [OF inv free] .
  have other: "\<And>j. j \<noteq> i \<Longrightarrow> sending_seq ?S j = None"
    by (simp add: sending_seq_upd none)
  have self: "\<And>k. sending_seq ?S i = Some k \<Longrightarrow> k = seq c \<and> seq_lock c"
    using snd sq by (auto simp add: sending_seq_upd pc_seq_after_begin split: stt_progress.splits)
  have a: "1 \<le> seq (client ?S)" "map fst (wire ?S) = [1..seq (client ?S) - 1]"
    using inv sq by (simp_all add: seq_invariant_def)
  have b: "\<forall>j k. sending_seq ?S j = Some k \<longrightarrow> k = seq (client ?S) \<and> seq_lock (client ?S)"
  proof (intro allI impI)
    fix j k assume h: "sending_seq ?S j = Some k"
    have "j = i"
    proof (rule ccontr)
      assume "j \<noteq> i"
      from other [OF this] h show False by simp
    qed
    with h self show "k = seq (client ?S) \<and> seq_lock (client ?S)" by simp
  qed
  have c: "\<forall>j j'. sending_seq ?S j \<noteq> None \<and> sending_seq ?S j' \<noteq> None \<longrightarrow> j = j'"
  proof (intro allI impI)
    fix j j' assume h: "sending_seq ?S j \<noteq> None \<and> sending_seq ?S j' \<noteq> None"
    have "j = i"
    proof (rule ccontr)
      assume "j \<noteq> i"
      from other [OF this] h show False by simp
    qed
    moreover have "j' = i"
    proof (rule ccontr)
      assume "j' \<noteq> i"
      from other [OF this] h show False by simp
    qed
    ultimately show "j = j'" by simp
  qed
  from a b c show ?thesis unfolding seq_invariant_def by blast
qed

lemma invariant_start:
  assumes inv: "seq_invariant S" and st: "calls S i = NotStarted call"
    and b: "call_begin gz (client S) call = (p, c)"
  shows "seq_invariant (S\<lparr>client := c, calls := (calls S)(i := after_begin call p)\<rparr>)"
proof (cases "seq_lock (client S)")
  case True
  from call_begin_locked [OF b True] have c: "c = client S"
    and ns: "\<And>k request. p \<noteq> SendAwaitSend k request" by auto
  have pn: "pc_seq (after_begin call p) = None"
  proof (cases p)
    case (SendAwaitSend k request)
    with ns show ?thesis by blast
  qed simp_all
  have old: "sending_seq S i = None" using st by (simp add: sending_seq_def)
  show ?thesis
  proof (rule invariant_same_sending [OF inv])
    show "client (S\<lparr>client := c, calls := (calls S)(i := after_begin call p)\<rparr>) = client S"
      by (simp add: c)
    show "wire (S\<lparr>client := c, calls := (calls S)(i := after_begin call p)\<rparr>) = wire S"
      by simp
    show "sending_seq (S\<lparr>client := c, calls := (calls S)(i := after_begin call p)\<rparr>) j
            = sending_seq S j" for j
      using pn old by (simp add: sending_seq_upd)
  qed
next
  case False
  from call_begin_free [OF b False] show ?thesis
    by (intro invariant_enter [OF inv False]) auto
qed

lemma call_resume_returns: "call_resume gz Returns c call = call_locked gz c call"
  by (cases call) (simp_all add: send_audio_resume_def send_full_client_request_resume_def)

lemma call_resume_raises: "call_resume gz (Raises e) c call = (SendFinished (Inl (Escaped e)), c)"
  by (cases call) (simp_all add: send_audio_resume_def send_full_client_request_resume_def)

lemma call_resume_facts:
  assumes "call_resume gz waited c call = (p, c')"
  shows "seq c' = seq c"
    and "\<And>k request. p = SendAwaitSend k request \<Longrightarrow> waited = Returns \<and> k = seq c \<and> seq_lock c'"
    and "\<And>e. waited = Raises e \<Longrightarrow> p = SendFinished (Inl (Escaped e)) \<and> c' = c"
proof -
  show "seq c' = seq c"
  proof (cases waited)
    case Returns
    with assms have "call_locked gz c call = (p, c')" by (simp add: call_resume_returns)
    then show ?thesis by (rule call_locked_facts(1))
  next
    case (Raises e)
    with assms show ?thesis by (simp add: call_resume_raises)
  qed
  show "waited = Returns \<and> k = seq c \<and> seq_lock c'" if "p = SendAwaitSend k request" for k request
  proof (cases waited)
    case Returns
    with assms have "call_locked gz c call = (p, c')" by (simp add: call_resume_returns)
    from call_locked_facts(4) [OF this that] Returns show ?thesis by simp
  next
    case (Raises e)
    with assms that show ?thesis by (simp add: call_resume_raises)
  qed
  show "p = SendFinished (Inl (Escaped e)) \<and> c' = c" if "waited = Raises e" for e
    using assms that by (simp add: call_resume_raises)
qed

lemma invariant_acquire:
  assumes inv: "seq_invariant S" and st: "calls S i = WaitingLock call"
    and free: "\<not> seq_lock (client S)"
    and b: "call_resume gz Returns (client S) call = (p, c)"
  shows "seq_invariant (S\<lparr>client := c, calls := (calls S)(i := after_begin call p)\<rparr>)"
  using call_locked_facts [OF b [unfolded call_resume_returns]]
  by (intro invariant_enter [OF inv free]) auto

lemma invariant_wait_cancelled:
  assumes inv: "seq_invariant S" and st: "calls S i = WaitingLock call"
    and b: "call_resume gz (Raises e) (client S) call = (p, c)"
  shows "seq_invariant (S\<lparr>client := c, calls := (calls S)(i := after_begin call p)\<rparr>)"
proof -
  from b have c: "c = client S" and p: "p = SendFinished (Inl (Escaped e))"
    by (simp_all add: call_resume_raises)
  have old: "sending_seq S i = None" using st by (simp add: sending_seq_def)
  show ?thesis
  proof (rule invariant_same_sending [OF inv])
    show "client (S\<lparr>client := c, calls := (calls S)(i := after_begin call p)\<rparr>) = client S"
      by (simp add: c)
    show "wire (S\<lparr>client := c, calls := (calls S)(i := after_begin call p)\<rparr>) = wire S"
      by simp
    show "sending_seq (S\<lparr>client := c, calls := (calls S)(i := after_begin call p)\<rparr>) j
            = sending_seq S j" for j
      using old by (simp add: sending_seq_upd p)
  qed
qed

lemma upto_snoc: "1 \<le> n \<Longrightarrow> [1..n - 1] @ [n] = [1..n]" for n :: int
  by (simp add: upto_rec2)

lemma invariant_finish:
  assumes inv: "seq_invariant S" and st: "calls S i = Sending call k request"
    and e: "call_end call sent (client S) = (r, c)"
  shows "seq_invariant
       (S\<lparr>client := c, calls := (calls S)(i := Returned r),
          wire := (if sent = Returns then wire S @ [(k, request)] else wire S)\<rparr>)"
proof -
  let ?S = "S\<lparr>client := c, calls := (calls S)(i := Returned r),
          wire := (if sent = Returns then wire S @ [(k, request)] else wire S)\<rparr>"
  have si: "sending_seq S i = Some k" using st by (simp add: sending_seq_def)
  with inv have k: "k = seq (client S)" by (simp add: seq_invariant_def)
  have uniq: "\<And>j. j \<noteq> i \<Longrightarrow> sending_seq S j = None"
  proof -
    fix j assume "j \<noteq> i"
    show "sending_seq S j = None"
    proof (rule ccontr)
      assume "sending_seq S j \<noteq> None"
      with si inv have "j = i" unfolding seq_invariant_def by blast
      with \<open>j \<noteq> i\<close> show False by simp
    qed
  qed
  have none: "\<And>j. sending_seq ?S j = None"
    using uniq by (simp add: sending_seq_def)
  from call_end_facts [OF e] have lk: "\<not> seq_lock c"
    and sq: "seq c = (if sent = Returns then seq (client S) + 1 else seq (client S))" by auto
  from inv have pos: "1 \<le> seq (client S)" and w: "map fst (wire S) = [1..seq (client S) - 1]"
    by (simp_all add: seq_invariant_def)
  have a: "1 \<le> seq (client ?S)" using pos sq by simp
  have b: "map fst (wire ?S) = [1..seq (client ?S) - 1]"
    using w sq k upto_snoc [OF pos] by simp
  show ?thesis unfolding seq_invariant_def using a b none by simp
qed

lemma invariant_other:
  assumes inv: "seq_invariant S" and "seq c = seq (client S)" "seq_lock c = seq_lock (client S)"
  shows "seq_invariant (S\<lparr>client := c\<rparr>)"
  using assms by (simp add: seq_invariant_def sending_seq_def)

lemma invariant_step:
  assumes "stt_step gz S S'" "seq_invariant S"
  shows "seq_invariant S'"
  using assms
proof (induction rule: stt_step.induct)
  case (start S i call p c)
  then show ?case by (simp add: invariant_start)
next
  case (acquire S i call p c)
  then show ?case by (simp add: invariant_acquire)
next
  case (wait_cancelled S i call p c)
  then show ?case by (simp add: invariant_wait_cancelled)
next
  case (finish S i call k request sent r c)
  then show ?case by (simp add: invariant_finish)
next
  case (other c S)
  then show ?case by (simp add: invariant_other)
qed

lemma invariant_fresh:
  assumes "client S = stt_init" "wire S = []" "\<And>i. \<exists>call. calls S i = NotStarted call"
  shows "seq_invariant S"
proof -
  have "\<And>i. sending_seq S i = None"
  proof -
    fix i from assms(3) obtain call where "calls S i = NotStarted call" by blast
    then show "sending_seq S i = None" by (simp add: sending_seq_def)
  qed
  then show ?thesis using assms(1,2) by (simp add: seq_invariant_def stt_init_def)
qed

lemma reachable_invariant:
  assumes "stt_reachable gz S"
  shows "seq_invariant S"
  using assms
proof (induction rule: stt_reachable.induct)
  case (fresh S)
  then show ?case by (intro invariant_fresh) auto
next
  case (step S S')
  then show ?case by (simp add: invariant_step)
qed

lemma call_begin_seq:
  assumes "call_begin gz c call = (p, c')"
  shows "seq c' = seq c" "\<And>k request. p = SendAwaitSend k request \<Longrightarrow> k = seq c"
proof -
  show "seq c' = seq c"
    using call_begin_locked [OF assms] call_begin_free [OF assms] by (cases "seq_lock c") auto
  show "\<And>k request. p = SendAwaitSend k request \<Longrightarrow> k = seq c"
    using call_begin_locked [OF assms] call_begin_free [OF assms] by (cases "seq_lock c") auto
qed

lemma distinct_wire:
  assumes "seq_invariant S"
  shows "distinct (map fst (wire S))"
  using assms by (simp add: seq_invariant_def)

text \<open>
  C6.  The sequence counter of the STT client.  It starts at 1.  A call reads it, and a
  call that reaches \<open>websocket.send\<close> has read the current value and holds the lock;
  nothing before the send changes it, whether the call is turned away by a precondition,
  fails to build its request or goes on to send; a call whose wait for the lock is
  cancelled leaves the client as it was.  When the send comes back, the counter is
  incremented by one if the send succeeded and is unchanged otherwise, and the lock is
  free again.  In every system reachable by interleaving any number of calls of
  \<open>send_audio\<close> and \<open>_send_full_client_request\<close> at their suspension points, cancelled
  or not, the sends that succeeded carried exactly the values 1, 2, ... up to the counter
  minus one, in this order, none twice and none skipped, and at most one call is suspended
  in a send.
\<close>

theorem stt_sequence_counter_invariant:
  "seq stt_init = 1 \<and>
   (call_begin gz c call = (p, c') \<longrightarrow>
      seq c' = seq c \<and> (\<forall>k request. p = SendAwaitSend k request \<longrightarrow> k = seq c)) \<and>
   (call_locked gz c call = (p, c') \<longrightarrow>
      seq c' = seq c \<and> (\<forall>k request. p = SendAwaitSend k request \<longrightarrow> k = seq c \<and> seq_lock c')) \<and>
   (call_resume gz waited c call = (p, c') \<longrightarrow>
      seq c' = seq c \<and>
      (\<forall>k request. p = SendAwaitSend k request \<longrightarrow> waited = Returns \<and> k = seq c \<and> seq_lock c') \<and>
      (\<forall>e. waited = Raises e \<longrightarrow> p = SendFinished (Inl (Escaped e)) \<and> c' = c)) \<and>
   (call_end call sent c = (r, c') \<longrightarrow>
      seq c' = (if sent = Returns then seq c + 1 else seq c) \<and> \<not> seq_lock c') \<and>
   (stt_reachable gz S \<longrightarrow> seq_invariant S \<and> distinct (map fst (wire S)))"
proof (intro conjI impI)
  show "seq stt_init = 1" by (simp add: stt_init_def)
next
  assume "call_begin gz c call = (p, c')"
  then show "seq c' = seq c" by (rule call_begin_seq(1))
next
  assume a: "call_begin gz c call = (p, c')"
  show "\<forall>k request. p = SendAwaitSend k request \<longrightarrow> k = seq c"
    using call_begin_seq(2) [OF a] by blast
next
  assume "call_locked gz c call = (p, c')"
  then show "seq c' = seq c" by (rule call_locked_facts(1))
next
  assume a: "call_locked gz c call = (p, c')"
  show "\<forall>k request. p = SendAwaitSend k request \<longrightarrow> k = seq c \<and> seq_lock c'"
    using call_locked_facts(4) [OF a] by blast
next
  assume "call_resume gz waited c call = (p, c')"
  then show "seq c' = seq c" by (rule call_resume_facts(1))
next
  assume a: "call_resume gz waited c call = (p, c')"
  show "\<forall>k request. p = SendAwaitSend k request \<longrightarrow>
          waited = Returns \<and> k = seq c \<and> seq_lock c'"
    using call_resume_facts(2) [OF a] by blast
next
  assume a: "call_resume gz waited c call = (p, c')"
  show "\<forall>e. waited = Raises e \<longrightarrow> p = SendFinished (Inl (Escaped e)) \<and> c' = c"
    using call_resume_facts(3) [OF a] by blast
next
  assume a: "call_end call sent c = (r, c')"
  then show "seq c' = (if sent = Returns then seq c + 1 else seq c)" by (rule call_end_facts(2))
next
  assume a: "call_end call sent c = (r, c')"
  then show "\<not> seq_lock c'" by (rule call_end_facts(1))
next
  assume "stt_reachable gz S"
  then show "seq_invariant S" by (rule reachable_invariant)
next
  assume "stt_reachable gz S"
  then have "seq_invariant S" by (rule reachable_invariant)
  then show "distinct (map fst (wire S))" by (rule distinct_wire)
qed

lemma full_request_1:
  "new_full_client_request 1 [] = Inr [0x11, 0x11, 0x11, 0, 0, 0, 0, 1, 0, 0, 0, 0]"
  by (simp add: new_full_client_request_def header_as_bytes_def Header_def to_byte_def
      CLIENT_FULL_REQUEST_def POS_SEQUENCE_def JSON_def COMPRESSION_GZIP_def
      PROTOCOL_VERSION_def DEFAULT_HEADER_SIZE_def pack_i_def pack_I_def be32_def Let_def
      ebind_def)

lemma fresh_begin:
  "call_begin gz (client fresh_system) (FullRequestCall [])
     = (SendAwaitSend 1 [0x11, 0x11, 0x11, 0, 0, 0, 0, 1, 0, 0, 0, 0], stt_init\<lparr>seq_lock := True\<rparr>)"
  by (simp add: fresh_system_def send_full_client_request_begin_def
      send_full_client_request_locked_def full_request_1 stt_init_def Let_def)

lemma fresh_end:
  "call_end (FullRequestCall []) Returns (stt_init\<lparr>seq_lock := True\<rparr>)
     = (Inr True, stt_init\<lparr>seq_lock := True, seq := 2, seq_lock := False\<rparr>)"
  by (simp add: send_full_client_request_end_def stt_init_def)

lemma after_one_send_reachable:
  "stt_reachable gz
     (fresh_system
        \<lparr>client := stt_init\<lparr>seq_lock := True\<rparr>,
         calls := (calls fresh_system)
                    (0 := Sending (FullRequestCall []) 1 [0x11, 0x11, 0x11, 0, 0, 0, 0, 1, 0, 0, 0, 0])\<rparr>
        \<lparr>client := stt_init\<lparr>seq_lock := True, seq := 2, seq_lock := False\<rparr>,
         calls := ((calls fresh_system)
                    (0 := Sending (FullRequestCall []) 1 [0x11, 0x11, 0x11, 0, 0, 0, 0, 1, 0, 0, 0, 0]))
                    (0 := Returned (Inr True)),
         wire := [(1, [0x11, 0x11, 0x11, 0, 0, 0, 0, 1, 0, 0, 0, 0])]\<rparr>)"
proof -
  let ?req = "[0x11, 0x11, 0x11, 0, 0, 0, 0, 1, 0, 0, 0, 0] :: byte list"
  let ?S1 = "fresh_system
        \<lparr>client := stt_init\<lparr>seq_lock := True\<rparr>,
         calls := (calls fresh_system) (0 := Sending (FullRequestCall []) 1 ?req)\<rparr>"
  have r0: "stt_reachable gz fresh_system"
    by (rule stt_reachable.fresh) (simp_all add: fresh_system_def)
  have c0: "calls fresh_system 0 = NotStarted (FullRequestCall [])"
    by (simp add: fresh_system_def)
  from stt_step.start [OF c0 fresh_begin, of gz]
  have s1: "stt_step gz fresh_system ?S1" by simp
  have r1: "stt_reachable gz ?S1" by (rule stt_reachable.step [OF r0 s1])
  have c1: "calls ?S1 0 = Sending (FullRequestCall []) 1 ?req" by simp
  have e1: "call_end (FullRequestCall []) Returns (client ?S1)
              = (Inr True, stt_init\<lparr>seq_lock := True, seq := 2, seq_lock := False\<rparr>)"
    using fresh_end by simp
  from stt_step.finish [OF c1 e1, of gz]
  have s2: "stt_step gz ?S1
     (?S1\<lparr>client := stt_init\<lparr>seq_lock := True, seq := 2, seq_lock := False\<rparr>,
          calls := (calls ?S1)(0 := Returned (Inr True)),
          wire := (if Returns = Returns then wire ?S1 @ [(1, ?req)] else wire ?S1)\<rparr>)" .
  from stt_reachable.step [OF r1 s2] show ?thesis by (simp add: fresh_system_def)
qed

theorem stt_sequence_counter_invariant_witness:
  "stt_reachable id
     (fresh_system
        \<lparr>client := stt_init\<lparr>seq_lock := True\<rparr>,
         calls := (calls fresh_system)
                    (0 := Sending (FullRequestCall []) 1 [0x11, 0x11, 0x11, 0, 0, 0, 0, 1, 0, 0, 0, 0])\<rparr>
        \<lparr>client := stt_init\<lparr>seq_lock := True, seq := 2, seq_lock := False\<rparr>,
         calls := ((calls fresh_system)
                    (0 := Sending (FullRequestCall []) 1 [0x11, 0x11, 0x11, 0, 0, 0, 0, 1, 0, 0, 0, 0]))
                    (0 := Returned (Inr True)),
         wire := [(1, [0x11, 0x11, 0x11, 0, 0, 0, 0, 1, 0, 0, 0, 0])]\<rparr>) \<and>
   seq_invariant
     (fresh_system
        \<lparr>client := stt_init\<lparr>seq_lock := True\<rparr>,
         calls := (calls fresh_system)
                    (0 := Sending (FullRequestCall []) 1 [0x11, 0x11, 0x11, 0, 0, 0, 0, 1, 0, 0, 0, 0])\<rparr>
        \<lparr>client := stt_init\<lparr>seq_lock := True, seq := 2, seq_lock := False\<rparr>,
         calls := ((calls fresh_system)
                    (0 := Sending (FullRequestCall []) 1 [0x11, 0x11, 0x11, 0, 0, 0, 0, 1, 0, 0, 0, 0]))
                    (0 := Returned (Inr True)),
         wire := [(1, [0x11, 0x11, 0x11, 0, 0, 0, 0, 1, 0, 0, 0, 0])]\<rparr>) \<and>
   call_end (FullRequestCall []) Returns (stt_init\<lparr>seq_lock := True\<rparr>)
     = (Inr True, stt_init\<lparr>seq_lock := True, seq := 2, seq_lock := False\<rparr>) \<and>
   seq (stt_init\<lparr>seq_lock := True, seq := 2, seq_lock := False\<rparr>) = seq (stt_init\<lparr>seq_lock := True\<rparr>) + 1"
  using after_one_send_reachable [of id] fresh_end
    stt_sequence_counter_invariant [where gz = id and call = "FullRequestCall []"
      and sent = Returns and c = "stt_init\<lparr>seq_lock := True\<rparr>" and r = "Inr True"
      and c' = "stt_init\<lparr>seq_lock := True, seq := 2, seq_lock := False\<rparr>"
      and S = "fresh_system
        \<lparr>client := stt_init\<lparr>seq_lock := True\<rparr>,
         calls := (calls fresh_system)
                    (0 := Sending (FullRequestCall []) 1 [0x11, 0x11, 0x11, 0, 0, 0, 0, 1, 0, 0, 0, 0])\<rparr>
        \<lparr>client := stt_init\<lparr>seq_lock := True, seq := 2, seq_lock := False\<rparr>,
         calls := ((calls fresh_system)
                    (0 := Sending (FullRequestCall []) 1 [0x11, 0x11, 0x11, 0, 0, 0, 0, 1, 0, 0, 0, 0]))
                    (0 := Returned (Inr True)),
         wire := [(1, [0x11, 0x11, 0x11, 0, 0, 0, 0, 1, 0, 0, 0, 0])]\<rparr>"]
  by (simp add: stt_init_def)

lemma handler_returns:
  assumes "on_error c = None \<or> on_error c = Some Returns"
  shows "send_audio_handler c = (Inr False, c\<lparr>seq_lock := False\<rparr>)"
  using assms by (auto simp add: send_audio_handler_def)

lemma send_audio_locked_finished:
  assumes cb: "on_error c = None \<or> on_error c = Some Returns"
    and f: "send_audio_locked gz c a l = (SendFinished r, c')"
  shows "r = Inr False \<and> seq c' = seq c \<and> stt_is_connected c' = stt_is_connected c \<and>
         stt_websocket c' = stt_websocket c"
proof -
  have h1: "send_audio_handler (c\<lparr>seq_lock := True\<rparr>)
              = (Inr False, c\<lparr>seq_lock := True, seq_lock := False\<rparr>)"
    using cb by (intro handler_returns) simp
  have h2: "\<And>b s n m. send_audio_handler
               (c\<lparr>seq_lock := True, audio_buffer := b, buffer_size := n, current_session := s,
                   stats_total_audio_bytes := m\<rparr>)
              = (Inr False, c\<lparr>seq_lock := True, audio_buffer := b, buffer_size := n,
                   current_session := s, stats_total_audio_bytes := m, seq_lock := False\<rparr>)"
    using cb by (intro handler_returns) simp
  show ?thesis using f
    by (auto simp add: send_audio_locked_def Let_def h1 h2
        split: option.splits sum.splits if_splits)
qed

lemma send_audio_begin_finished:
  assumes cb: "on_error c = None \<or> on_error c = Some Returns"
    and f: "send_audio_begin gz c a l = (SendFinished r, c')"
  shows "r = Inr False \<and> seq c' = seq c \<and> stt_is_connected c' = stt_is_connected c \<and>
         stt_websocket c' = stt_websocket c"
proof -
  from f have "(r = Inr False \<and> c' = c) \<or> send_audio_locked gz c a l = (SendFinished r, c')"
    by (auto simp add: send_audio_begin_def split: if_splits)
  then show ?thesis using send_audio_locked_finished [OF cb] by auto
qed

lemma send_audio_precondition:
  assumes "\<not> stt_is_connected c \<or> current_session c = None \<or> stt_websocket c \<noteq> Some OPEN"
  shows "send_audio_begin gz c a l = (SendFinished (Inr False), c)"
  using assms by (auto simp add: send_audio_begin_def)

lemma send_audio_invalid_pcm:
  assumes cb: "on_error c = None \<or> on_error c = Some Returns"
    and "current_session c = Some session"
    and "\<not> validate_pcm_audio a (sample_rate (config session)) (channels (config session))"
  shows "fst (send_audio_locked gz c a l) = SendFinished (Inr False)"
proof -
  have h1: "send_audio_handler (c\<lparr>seq_lock := True\<rparr>)
              = (Inr False, c\<lparr>seq_lock := True, seq_lock := False\<rparr>)"
    using cb by (intro handler_returns) simp
  show ?thesis using assms(2,3)
    by (simp add: send_audio_locked_def Let_def h1 split: sum.splits)
qed

lemma send_audio_resumed_finished:
  assumes cb: "on_error c = None \<or> on_error c = Some Returns"
    and f: "send_audio_resume gz Returns c a l = (SendFinished r, c')"
  shows "r = Inr False \<and> seq c' = seq c \<and> stt_is_connected c' = stt_is_connected c \<and>
         stt_websocket c' = stt_websocket c"
  using send_audio_locked_finished [OF cb, of gz a l r c'] f
  by (simp add: send_audio_resume_def)

lemma send_audio_cancelled:
  "send_audio_resume gz (Raises CancelledError) c a l
     = (SendFinished (Inl (Escaped CancelledError)), c) \<and>
   send_audio_end (Raises CancelledError) c
     = (Inl (Escaped CancelledError), c\<lparr>seq_lock := False\<rparr>)"
  by (simp add: send_audio_resume_def send_audio_end_def)

lemma send_audio_end_result:
  assumes cb: "on_error c = None \<or> on_error c = Some Returns"
    and nc: "sent \<noteq> Raises CancelledError"
    and e: "send_audio_end sent c = (r, c')"
  shows "r = Inr (sent = Returns) \<and> stt_is_connected c' = stt_is_connected c \<and>
         stt_websocket c' = stt_websocket c \<and> (sent \<noteq> Returns \<longrightarrow> seq c' = seq c)"
  using e nc handler_returns [OF cb]
  by (auto simp add: send_audio_end_def split: outcome.splits dh_exn.splits)

text \<open>
  C10.  \<open>send_audio\<close> returns a boolean, as far as it does.  With no error callback, or
  one that returns: every way the call ends before its send, at once or after it has
  acquired the lock it waited for, gives \<open>False\<close> and leaves the sequence counter and
  the connection state as they were, in particular when the client is not connected, has
  no session, has no socket or one that is not \<open>OPEN\<close>, or the PCM data fails
  validation; and unless the call is cancelled during the send, it returns \<open>True\<close> when
  the send succeeded and \<open>False\<close>, counter and connection state unchanged, when the
  send raised.  The two cancellations are the cases left: a call cancelled while it waits
  for the lock raises \<open>CancelledError\<close> with the client untouched, and a call cancelled
  during the send raises \<open>CancelledError\<close> with the counter unchanged and the lock
  released.
\<close>

theorem send_audio_returns_boolean:
  assumes "on_error c = None \<or> on_error c = Some Returns"
  shows "(\<not> stt_is_connected c \<or> current_session c = None \<or> stt_websocket c \<noteq> Some OPEN \<longrightarrow>
            send_audio_begin gz c a l = (SendFinished (Inr False), c)) \<and>
         (send_audio_begin gz c a l = (SendFinished r, c') \<longrightarrow>
            r = Inr False \<and> seq c' = seq c \<and> stt_is_connected c' = stt_is_connected c \<and>
            stt_websocket c' = stt_websocket c) \<and>
         (send_audio_locked gz c a l = (SendFinished r, c') \<longrightarrow>
            r = Inr False \<and> seq c' = seq c \<and> stt_is_connected c' = stt_is_connected c \<and>
            stt_websocket c' = stt_websocket c) \<and>
         (send_audio_resume gz Returns c a l = (SendFinished r, c') \<longrightarrow>
            r = Inr False \<and> seq c' = seq c \<and> stt_is_connected c' = stt_is_connected c \<and>
            stt_websocket c' = stt_websocket c) \<and>
         send_audio_resume gz (Raises CancelledError) c a l
           = (SendFinished (Inl (Escaped CancelledError)), c) \<and>
         send_audio_end (Raises CancelledError) c
           = (Inl (Escaped CancelledError), c\<lparr>seq_lock := False\<rparr>) \<and>
         (current_session c = Some session \<and>
          \<not> validate_pcm_audio a (sample_rate (config session)) (channels (config session)) \<longrightarrow>
            fst (send_audio_locked gz c a l) = SendFinished (Inr False)) \<and>
         (sent \<noteq> Raises CancelledError \<and> send_audio_end sent c = (r, c') \<longrightarrow>
            r = Inr (sent = Returns) \<and> stt_is_connected c' = stt_is_connected c \<and>
            stt_websocket c' = stt_websocket c \<and> (sent \<noteq> Returns \<longrightarrow> seq c' = seq c))"
  using send_audio_precondition [of c gz a l]
    send_audio_begin_finished [OF assms, of gz a l r c']
    send_audio_locked_finished [OF assms, of gz a l r c']
    send_audio_resumed_finished [OF assms, of gz a l r c']
    send_audio_cancelled [of gz c a l]
    send_audio_invalid_pcm [OF assms, of session a gz l]
    send_audio_end_result [OF assms, of sent r c']
  by blast

lemma wav_of_two_zero_bytes:
  "\<exists>w. pcm_to_wav [0, 0] 16000 1 16 = Inr w \<and> length w = 46"
  by (simp add: pcm_to_wav_def pack_le_I_def pack_le_H_def ebind_def length_be32)

lemma validate_two_zero_bytes: "validate_pcm_audio [0, 0] 16000 1"
  by (simp add: validate_pcm_audio_def Let_def)

lemma audio_request_built:
  assumes "- 2147483648 \<le> (if l then - k else k)" "(if l then - k else k) < 2147483648"
    and "int (length (gz segment)) < 4294967296"
  shows "\<exists>request. new_audio_only_request gz k segment l = Inr request"
proof -
  have "\<exists>hb. header_as_bytes (Header CLIENT_AUDIO_ONLY_REQUEST
       (if l then NEG_WITH_SEQUENCE else POS_SEQUENCE) NO_SERIALIZATION COMPRESSION_GZIP) = Inr hb"
    by (simp add: header_as_bytes_def Header_def to_byte_def ebind_def PROTOCOL_VERSION_def
      DEFAULT_HEADER_SIZE_def CLIENT_AUDIO_ONLY_REQUEST_def NEG_WITH_SEQUENCE_def
      POS_SEQUENCE_def NO_SERIALIZATION_def COMPRESSION_GZIP_def)
  then obtain hb where hb: "header_as_bytes (Header CLIENT_AUDIO_ONLY_REQUEST
       (if l then NEG_WITH_SEQUENCE else POS_SEQUENCE) NO_SERIALIZATION COMPRESSION_GZIP) = Inr hb"
    by blast
  have sb: "pack_i (if l then - k else k) = Inr (be32 (if l then - k else k))"
    using assms(1,2) by (simp add: pack_i_def)
  have lb: "pack_I (int (length (gz segment))) = Inr (be32 (int (length (gz segment))))"
    using assms(3) by (simp add: pack_I_def)
  show ?thesis
    unfolding new_audio_only_request_def Let_def hb sb lb by (simp add: ebind_def)
qed

lemma connected_client_begin:
  "\<exists>request c1. send_audio_begin id connected_client [0, 0] False = (SendAwaitSend 2 request, c1)
      \<and> on_error c1 = Some (Raises OtherError)"
proof -
  from wav_of_two_zero_bytes obtain w where
    w: "pcm_to_wav [0, 0] 16000 1 16 = Inr w" "length w = 46" by blast
  have "\<exists>request. new_audio_only_request id 2 w False = Inr request"
    using w(2) by (intro audio_request_built) simp_all
  then obtain request where r: "new_audio_only_request id 2 w False = Inr request" by blast
  show ?thesis
    by (simp add: send_audio_begin_def connected_client_def stt_init_def send_audio_locked_def
        Let_def w(1) validate_two_zero_bytes r)
qed

text \<open>
  With an error callback that raises, a send that fails makes \<open>send_audio\<close> raise: the
  handler calls the callback outside any \<open>try\<close>.
\<close>

theorem send_audio_raises_counterexample:
  "pc_seq (after_begin (AudioCall [0, 0] False)
             (fst (send_audio_begin id connected_client [0, 0] False))) = Some 2 \<and>
   fst (send_audio_end (Raises ConnectionClosed)
          (snd (send_audio_begin id connected_client [0, 0] False)))
     = Inl (Escaped OtherError)"
proof -
  from connected_client_begin obtain request c1 where
    b: "send_audio_begin id connected_client [0, 0] False = (SendAwaitSend 2 request, c1)"
    and cb: "on_error c1 = Some (Raises OtherError)" by blast
  show ?thesis
    by (simp add: b send_audio_end_def send_audio_handler_def cb)
qed

theorem send_audio_returns_boolean_witness:
  "on_error stt_init = None \<and> \<not> stt_is_connected stt_init \<and>
   send_audio_begin id stt_init [0, 0] False = (SendFinished (Inr False), stt_init) \<and>
   on_error (connected_client\<lparr>on_error := None\<rparr>) = None \<and>
   fst (send_audio_end (Raises ConnectionClosed) (connected_client\<lparr>on_error := None\<rparr>))
     = Inr False \<and>
   seq (snd (send_audio_end (Raises ConnectionClosed) (connected_client\<lparr>on_error := None\<rparr>)))
     = seq (connected_client\<lparr>on_error := None\<rparr>)"
proof -
  have h1: "on_error stt_init = None" and n1: "\<not> stt_is_connected stt_init"
    by (simp_all add: stt_init_def)
  have h2: "on_error (connected_client\<lparr>on_error := None\<rparr>) = None" by simp
  obtain r c' where e: "send_audio_end (Raises ConnectionClosed)
      (connected_client\<lparr>on_error := None\<rparr>) = (r, c')"
    by (cases "send_audio_end (Raises ConnectionClosed) (connected_client\<lparr>on_error := None\<rparr>)")
  have nc: "Raises ConnectionClosed \<noteq> Raises CancelledError" by simp
  have a: "send_audio_begin id stt_init [0, 0] False = (SendFinished (Inr False), stt_init)"
    using send_audio_returns_boolean [where c = stt_init and gz = id and a = "[0, 0]" and l = False]
      h1 n1 by blast
  have b: "r = Inr (Raises ConnectionClosed = Returns) \<and>
           (Raises ConnectionClosed \<noteq> Returns \<longrightarrow> seq c' = seq (connected_client\<lparr>on_error := None\<rparr>))"
    using send_audio_returns_boolean [where c = "connected_client\<lparr>on_error := None\<rparr>"
        and r = r and c' = c' and sent = "Raises ConnectionClosed"] h2 nc e by blast
  from h1 n1 a h2 b e show ?thesis by simp
qed

subsection \<open>Streaming pipeline\<close>

lemma cleanup_removes_session:
  "active_streams (cleanup_stream_session r sid) sid = None"
  by (simp add: cleanup_stream_session_def Let_def split: option.split)

lemma cleanup_removes_from_room:
  assumes "active_streams r sid = Some st" "stream_live_id st = Some l" "l \<noteq> []"
  shows "(case live_to_sessions (cleanup_stream_session r sid) l of
            None \<Rightarrow> True | Some ss \<Rightarrow> sid \<notin> ss)"
  using assms by (simp add: cleanup_stream_session_def Let_def split: option.split)

lemma registered_s1_state:
  "active_streams registered_s1 ''s1'' = Some \<lparr>stream_live_id = Some ''room'', cancel_event = 0\<rparr>"
  "live_to_sessions registered_s1 ''room'' = Some {''s1''}"
  by (simp_all add: registered_s1_def register_stream_session_def empty_registry_def Let_def)

lemma strip_hi: "strip [0x48, 0x69, 0x2E] = [0x48, 0x69, 0x2E]"
  by (simp add: strip_def py_isspace_def)

lemma mark_hi: "has_sentence_mark [0x48, 0x69, 0x2E]"
  by (simp add: has_sentence_mark_def sentence_marks_def)

lemma cancel_during_synthesis_ends_with_cancelled:
  "emitted (fst (stream_pipeline (two_chunk_env 6) hi_answer
              (snd (cancel_stream_by_session registered_s1 ''s1'')) ''s1''))
     = [EvStart, EvTextChunk [0x48, 0x69, 0x2E] [0x48, 0x69, 0x2E],
        EvSentenceComplete [0x48, 0x69, 0x2E], EvCancelled] \<and>
   avatar_drives (fst (stream_pipeline (two_chunk_env 6) hi_answer
              (snd (cancel_stream_by_session registered_s1 ''s1'')) ''s1'')) = []"
  by (simp add: stream_pipeline_def pipeline_body_def hi_answer_def two_chunk_env_def
      pipeline_start_def emit_def await_def is_set_def process_sentence_def
      process_remaining_def safe_tts_synthesize.simps strip_hi mark_hi Let_def)

text \<open>
  C3.  Cancellation in the middle of a sentence's audio.  When the cancel event is found
  set while the TTS service still sends its chunks, \<open>CancelledError\<close> is raised and the
  pipeline ends with \<open>cancelled\<close>, as the lemma above shows.  When it is found set by
  the loop that drives the avatar, the loop yields \<open>cancelled\<close> and breaks, where the
  check at the entry of the pipeline returns: the pipeline goes on, yields
  \<open>sentence_processed\<close> and ends with \<open>complete\<close>.  Here the event gets set after
  the first of two chunks has been delivered: the second chunk is not delivered and the
  session leaves both tables, but the last event is \<open>complete\<close>, not \<open>cancelled\<close>.
\<close>

theorem cancel_during_delivery_ends_with_complete:
  "emitted (fst (stream_pipeline (two_chunk_env 9) hi_answer
              (snd (cancel_stream_by_session registered_s1 ''s1'')) ''s1''))
     = [EvStart, EvTextChunk [0x48, 0x69, 0x2E] [0x48, 0x69, 0x2E],
        EvSentenceComplete [0x48, 0x69, 0x2E], EvAudioChunk [0x48, 0x69, 0x2E] 2, EvCancelled,
        EvSentenceProcessed [0x48, 0x69, 0x2E], EvComplete [0x48, 0x69, 0x2E]] \<and>
   avatar_drives (fst (stream_pipeline (two_chunk_env 9) hi_answer
              (snd (cancel_stream_by_session registered_s1 ''s1'')) ''s1'')) = [[1, 2]] \<and>
   active_streams (snd (stream_pipeline (two_chunk_env 9) hi_answer
              (snd (cancel_stream_by_session registered_s1 ''s1'')) ''s1'')) ''s1'' = None \<and>
   live_to_sessions (snd (stream_pipeline (two_chunk_env 9) hi_answer
              (snd (cancel_stream_by_session registered_s1 ''s1'')) ''s1'')) ''room'' = None"
  by (simp add: stream_pipeline_def pipeline_body_def hi_answer_def two_chunk_env_def
      pipeline_start_def emit_def await_def is_set_def process_sentence_def
      process_remaining_def safe_tts_synthesize.simps strip_hi mark_hi Let_def
      registered_s1_def register_stream_session_def empty_registry_def
      cancel_stream_by_session_def cleanup_stream_session_def)

end
